theory Spec2Isabelle
  imports
    Complex_Main
    "HOL-Library.AList"
    "HOL-Library.Char_ord"
    "HOL-Library.List_Lexorder"
    "HOL-Library.Product_Lexorder"
    "HOL-Library.Sublist"
    "HOL-Library.Multiset"
begin

section \<open>Transfer portal orchestrator: data model\<close>

text \<open>
  The embedding follows \<^verbatim>\<open>src/agents/transfer_portal_orchestrator.py\<close> and, for the
  news post-processing, \<^verbatim>\<open>src/agents/news_monitor_agent.py\<close>.

  Conventions of the embedding.
  \<^item> A Python \<^verbatim>\<open>dict\<close> is an association list in insertion order; an assignment
    \<^verbatim>\<open>d[k] = v\<close> is \<^const>\<open>AList.update\<close> (an existing key keeps its place, a new key goes
    to the end), a lookup is \<^const>\<open>map_of\<close>.
  \<^item> An \<^verbatim>\<open>Optional[str]\<close> field is a \<^typ>\<open>string option\<close>. Python treats both
    \<^verbatim>\<open>None\<close> and the empty string as false; \<open>truthy\<close> is that test.
  \<^item> A \<^verbatim>\<open>float\<close> that the code only compares, adds constants to or averages is a
    \<^typ>\<open>rat\<close>: the arithmetic is the exact one, rounding of binary floating point is
    not modelled.
  \<^item> Strings are byte strings; \<^verbatim>\<open>str.lower\<close> is modelled on the ASCII letters.
  \<^item> A reading of the wall clock is a parameter of the function that reads it.
\<close>

text \<open>The source's \<^verbatim>\<open>DataSource.ALL\<close> is \<open>ALL_src\<close>: \<open>ALL\<close> is a binder of the logic.\<close>

datatype DataSource = ON3 | RIVALS | TWO47 | ALL_src

datatype AgentStatus = READY | RUNNING | ERROR | INACTIVE

datatype exn = KeyError | FetchError

record clock =
  iso :: string    \<comment> \<open>\<^verbatim>\<open>datetime.now().isoformat()\<close>\<close>
  secs :: rat      \<comment> \<open>\<^verbatim>\<open>time.time()\<close>\<close>

record PlayerStats =
  ppg :: "rat option"
  rpg :: "rat option"
  apg :: "rat option"
  spg :: "rat option"
  bpg :: "rat option"
  fg_pct :: "rat option"
  three_pt_pct :: "rat option"
  ft_pct :: "rat option"
  games :: "int option"
  stats_source :: "DataSource option"

record TransferPlayer =
  player_id :: string
  name :: string
  position :: "string option"
  height :: "string option"
  weight :: "int option"
  previous_school :: "string option"
  class_year :: "string option"
  eligibility :: "string option"
  transfer_date :: "string option"
  status :: "string option"
  destination_school :: "string option"
  stats :: "(DataSource \<times> PlayerStats) list"
  rankings :: "(DataSource \<times> int) list"
  composite_ranking :: "int option"
  profile_urls :: "(DataSource \<times> string) list"
  nil_valuation :: "(DataSource \<times> string) list"
  sources :: "DataSource list"
  last_updated :: "(DataSource \<times> string) list"

text \<open>
  A raw record is the \<^verbatim>\<open>Dict[str, Any]\<close> a site agent returns for one player. Only the
  keys the orchestrator reads are kept. \<open>None\<close> stands for a key that is absent or
  holds \<^verbatim>\<open>None\<close>: every read of the orchestrator treats the two alike, except
  \<^verbatim>\<open>player_data["name"]\<close>, which raises on both (\<^verbatim>\<open>KeyError\<close> for the absent key,
  \<^verbatim>\<open>AttributeError\<close> in \<^verbatim>\<open>name.lower()\<close> for \<^verbatim>\<open>None\<close>), inside the same \<^verbatim>\<open>try\<close>.
  The agents produce \<^verbatim>\<open>rank\<close> with \<^verbatim>\<open>_parse_rank\<close>, an \<^verbatim>\<open>int\<close> (0 when
  the page had none), so \<^verbatim>\<open>int(source_player["rank"])\<close> is the identity and never raises.
\<close>

record source_player =
  r_name :: "string option"
  r_position :: "string option"
  r_height :: "string option"
  r_previous_school :: "string option"
  r_last_team :: "string option"
  r_class_year :: "string option"
  r_eligibility :: "string option"
  r_status :: "string option"
  r_destination_school :: "string option"
  r_new_team :: "string option"
  r_rank :: "int option"
  r_stats :: "(string \<times> rat option) list option"
  r_nil_valuation :: "string option"
  r_profile_url :: "string option"

section \<open>Python helpers\<close>

definition truthy :: "string option \<Rightarrow> bool" where
  "truthy v = (case v of None \<Rightarrow> False | Some s \<Rightarrow> s \<noteq> [])"

text \<open>\<^verbatim>\<open>"k" in d and d["k"]\<close>: the value when the key is there and true, else nothing.\<close>

definition present :: "string option \<Rightarrow> string option" where
  "present v = (if truthy v then v else None)"

text \<open>\<^verbatim>\<open>d.get(k)\<close> on a dictionary whose values may be \<^verbatim>\<open>None\<close>.\<close>

definition dict_get :: "(string \<times> 'a option) list \<Rightarrow> string \<Rightarrow> 'a option" where
  "dict_get d k = (case map_of d k of None \<Rightarrow> None | Some v \<Rightarrow> v)"

text \<open>\<^verbatim>\<open>int(x)\<close> on a number: truncation toward zero.\<close>

definition py_int :: "rat \<Rightarrow> int" where
  "py_int x = (if 0 \<le> x then \<lfloor>x\<rfloor> else \<lceil>x\<rceil>)"

text \<open>\<^verbatim>\<open>int(sum(d.values()) / len(d))\<close> for a non-empty dictionary of integers.\<close>

definition mean_rank :: "(DataSource \<times> int) list \<Rightarrow> int" where
  "mean_rank rs = py_int (of_int (sum_list (map snd rs)) / of_nat (length rs))"

definition lower_char :: "char \<Rightarrow> char" where
  "lower_char c =
     (if CHR ''A'' \<le> c \<and> c \<le> CHR ''Z'' then char_of (of_char c + (32::nat)) else c)"

definition lower :: "string \<Rightarrow> string" where
  "lower s = map lower_char s"

text \<open>\<^verbatim>\<open>a in b\<close> on strings.\<close>

definition str_in :: "string \<Rightarrow> string \<Rightarrow> bool" where
  "str_in a b = sublist a b"

section \<open>Record merger\<close>

text \<open>\<^verbatim>\<open>_generate_player_id\<close>: lower-cased name without spaces, then \<^verbatim>\<open>_\<close> and the
  school treated the same way when a school is given.\<close>

definition normalize :: "string \<Rightarrow> string" where
  "normalize s = filter (\<lambda>c. c \<noteq> CHR '' '') (lower s)"

definition generate_player_id :: "string \<Rightarrow> string option \<Rightarrow> string" where
  "generate_player_id nm school =
     (case present school of
        Some sc \<Rightarrow> normalize nm @ ''_'' @ normalize sc
      | None \<Rightarrow> normalize nm)"

text \<open>The \<^verbatim>\<open>PlayerStats(...)\<close> built from a raw stats dictionary; \<^verbatim>\<open>games\<close> is not passed.\<close>

definition stats_of_dict :: "(string \<times> rat option) list \<Rightarrow> DataSource \<Rightarrow> PlayerStats" where
  "stats_of_dict d source =
     \<lparr> ppg = dict_get d ''ppg'', rpg = dict_get d ''rpg'', apg = dict_get d ''apg'',
       spg = dict_get d ''spg'', bpg = dict_get d ''bpg'', fg_pct = dict_get d ''fg_pct'',
       three_pt_pct = dict_get d ''three_pt_pct'', ft_pct = dict_get d ''ft_pct'',
       games = None, stats_source = Some source \<rparr>"

text \<open>The key-by-source part of \<^verbatim>\<open>_update_player_from_source\<close> (timestamp, profile URL,
  rank and composite ranking, stats, NIL valuation), in the source's order.\<close>

definition update_keyed :: "TransferPlayer \<Rightarrow> source_player \<Rightarrow> DataSource \<Rightarrow> clock \<Rightarrow> TransferPlayer" where
  "update_keyed player sp source now =
     (let p1 = player\<lparr>last_updated := AList.update source (iso now) (last_updated player)\<rparr>;
          p2 = (case present (r_profile_url sp) of
                  Some u \<Rightarrow> p1\<lparr>profile_urls := AList.update source u (profile_urls p1)\<rparr>
                | None \<Rightarrow> p1);
          p3 = (case r_rank sp of
                  Some r \<Rightarrow>
                    if r \<noteq> 0 then
                      (let rs = AList.update source r (rankings p2)
                       in if rs \<noteq> []
                          then p2\<lparr>rankings := rs, composite_ranking := Some (mean_rank rs)\<rparr>
                          else p2\<lparr>rankings := rs\<rparr>)
                    else p2
                | None \<Rightarrow> p2);
          p4 = (case r_stats sp of
                  Some d \<Rightarrow>
                    if d \<noteq> [] then p3\<lparr>stats := AList.update source (stats_of_dict d source) (stats p3)\<rparr>
                    else p3
                | None \<Rightarrow> p3);
          p5 = (case present (r_nil_valuation sp) of
                  Some v \<Rightarrow> p4\<lparr>nil_valuation := AList.update source v (nil_valuation p4)\<rparr>
                | None \<Rightarrow> p4)
      in p5)"

text \<open>\<^verbatim>\<open>update_basic\<close>: the source is ON3, or none of the seven scalar fields is true
  (\<open>any_basic\<close> is the \<^verbatim>\<open>any([...])\<close> of the source).\<close>

definition any_basic :: "TransferPlayer \<Rightarrow> bool" where
  "any_basic player =
     (truthy (position player) \<or> truthy (height player) \<or> truthy (previous_school player) \<or>
      truthy (class_year player) \<or> truthy (eligibility player) \<or> truthy (status player) \<or>
      truthy (destination_school player))"

definition update_basic :: "TransferPlayer \<Rightarrow> DataSource \<Rightarrow> bool" where
  "update_basic player source = (source = ON3 \<or> \<not> any_basic player)"

text \<open>The body of \<^verbatim>\<open>if update_basic:\<close>.\<close>

definition set_basic :: "TransferPlayer \<Rightarrow> source_player \<Rightarrow> TransferPlayer" where
  "set_basic player sp =
     (let p1 = (case present (r_position sp) of
                  Some v \<Rightarrow> player\<lparr>position := Some v\<rparr> | None \<Rightarrow> player);
          p2 = (case present (r_height sp) of
                  Some v \<Rightarrow> p1\<lparr>height := Some v\<rparr> | None \<Rightarrow> p1);
          p3 = (case present (r_previous_school sp) of
                  Some v \<Rightarrow> p2\<lparr>previous_school := Some v\<rparr>
                | None \<Rightarrow>
                    (case present (r_last_team sp) of
                       Some v \<Rightarrow> p2\<lparr>previous_school := Some v\<rparr> | None \<Rightarrow> p2));
          p4 = (case present (r_class_year sp) of
                  Some v \<Rightarrow> p3\<lparr>class_year := Some v\<rparr> | None \<Rightarrow> p3);
          p5 = (case present (r_eligibility sp) of
                  Some v \<Rightarrow> p4\<lparr>eligibility := Some v\<rparr> | None \<Rightarrow> p4);
          p6 = (case present (r_status sp) of
                  Some v \<Rightarrow> p5\<lparr>status := Some v\<rparr> | None \<Rightarrow> p5);
          p7 = (case present (r_destination_school sp) of
                  Some v \<Rightarrow> p6\<lparr>destination_school := Some v\<rparr>
                | None \<Rightarrow>
                    (case present (r_new_team sp) of
                       Some v \<Rightarrow> if v \<noteq> ''N/A'' then p6\<lparr>destination_school := Some v\<rparr> else p6
                     | None \<Rightarrow> p6))
      in p7)"

definition update_player_from_source ::
  "TransferPlayer \<Rightarrow> source_player \<Rightarrow> DataSource \<Rightarrow> clock \<Rightarrow> TransferPlayer" where
  "update_player_from_source player sp source now =
     (let p = update_keyed player sp source now
      in if update_basic p source then set_basic p sp else p)"

section \<open>Source health, consolidation and refresh\<close>

record AgentMetrics =
  last_successful_refresh :: "string option"
  last_refresh_attempt :: "string option"
  refresh_count :: int
  error_count :: int
  player_count :: int
  average_refresh_time_ms :: "rat option"
  agent_status :: AgentStatus

text \<open>
  \<^verbatim>\<open>self.agents\<close> and \<^verbatim>\<open>self.metrics\<close> are two dictionaries which the constructor fills
  with the same keys, in the same order, and which never gain or lose a key. They are one
  association list here: a source's slot holds the agent's \<^verbatim>\<open>data_cache\<close> and the source's
  metrics. \<^verbatim>\<open>self.agents[source]\<close> for a key that is not there raises \<^verbatim>\<open>KeyError\<close>.
  The scheduler's fields (\<^verbatim>\<open>refresh_interval\<close>, \<^verbatim>\<open>refresh_tasks\<close>) are left out.
\<close>

record agent_slot =
  data_cache :: "source_player list"
  metrics :: AgentMetrics

record orchestrator =
  agents :: "(DataSource \<times> agent_slot) list"
  players :: "(string \<times> TransferPlayer) list"
  last_consolidation :: "rat option"

definition AgentMetrics_default :: AgentMetrics where
  "AgentMetrics_default =
     \<lparr> last_successful_refresh = None, last_refresh_attempt = None, refresh_count = 0,
       error_count = 0, player_count = 0, average_refresh_time_ms = None,
       agent_status = INACTIVE \<rparr>"

text \<open>\<^verbatim>\<open>TransferPortalOrchestrator.__init__\<close>.\<close>

definition init :: orchestrator where
  "init =
     \<lparr> agents =
         [(ON3, \<lparr>data_cache = [], metrics = AgentMetrics_default\<rparr>),
          (RIVALS, \<lparr>data_cache = [], metrics = AgentMetrics_default\<rparr>),
          (TWO47, \<lparr>data_cache = [], metrics = AgentMetrics_default\<rparr>)],
       players = [], last_consolidation = None \<rparr>"

text \<open>\<^verbatim>\<open>TransferPlayer(player_id=player_id, name=player_data["name"], sources=[source])\<close>.\<close>

definition new_player :: "string \<Rightarrow> string \<Rightarrow> DataSource \<Rightarrow> TransferPlayer" where
  "new_player pid nm source =
     \<lparr> player_id = pid, name = nm, position = None, height = None, weight = None,
       previous_school = None, class_year = None, eligibility = None, transfer_date = None,
       status = None, destination_school = None, stats = [], rankings = [],
       composite_ranking = None, profile_urls = [], nil_valuation = [], sources = [source],
       last_updated = [] \<rparr>"

text \<open>
  The state a consolidation pass works on: \<^verbatim>\<open>self.players\<close> and the local set
  \<^verbatim>\<open>processed_players\<close>.
\<close>

type_synonym store = "(string \<times> TransferPlayer) list \<times> string set"

text \<open>The body of \<^verbatim>\<open>for player_data in data\<close>. Reading the name of a record that has none
  raises before anything is written.\<close>

definition merge_record :: "clock \<Rightarrow> DataSource \<Rightarrow> source_player \<Rightarrow> store \<Rightarrow> exn + store" where
  "merge_record now source pd st =
     (case r_name pd of
        None \<Rightarrow> Inl KeyError
      | Some nm \<Rightarrow>
          (let pid = generate_player_id nm (r_previous_school pd);
               processed = insert pid (snd st);
               player =
                 (case map_of (fst st) pid of
                    None \<Rightarrow> new_player pid nm source
                  | Some p \<Rightarrow>
                      if source \<in> set (sources p) then p
                      else p\<lparr>sources := sources p @ [source]\<rparr>)
           in Inr (AList.update pid (update_player_from_source player pd source now) (fst st),
                   processed)))"

text \<open>The id under which the pass files a raw record that has a name.\<close>

definition record_id :: "source_player \<Rightarrow> string" where
  "record_id pd =
     (case r_name pd of None \<Rightarrow> [] | Some nm \<Rightarrow> generate_player_id nm (r_previous_school pd))"

text \<open>The store holds a player under the id, with the source among its contributors.\<close>

definition merged_from :: "DataSource \<Rightarrow> (string \<times> TransferPlayer) list \<Rightarrow> string \<Rightarrow> bool" where
  "merged_from source ps k =
     (case map_of ps k of None \<Rightarrow> False | Some p \<Rightarrow> source \<in> set (sources p))"

text \<open>The \<^verbatim>\<open>for\<close> loop over one source's batch. The loop is inside the source's
  \<^verbatim>\<open>try\<close>: an exception ends it, with what was written so far kept.\<close>

fun merge_records :: "clock \<Rightarrow> DataSource \<Rightarrow> source_player list \<Rightarrow> store \<Rightarrow> store \<times> exn option" where
  "merge_records now source [] st = (st, None)"
| "merge_records now source (pd # rest) st =
     (case merge_record now source pd st of
        Inl e \<Rightarrow> (st, Some e)
      | Inr st' \<Rightarrow> merge_records now source rest st')"

text \<open>The body of \<^verbatim>\<open>for source, agent in self.agents.items()\<close>: sources that are not
  READY or RUNNING are skipped, so are empty caches; the \<^verbatim>\<open>except\<close> branch only logs.\<close>

definition consolidate_source :: "clock \<Rightarrow> store \<Rightarrow> DataSource \<times> agent_slot \<Rightarrow> store" where
  "consolidate_source now st sa =
     (if agent_status (metrics (snd sa)) \<noteq> READY \<and> agent_status (metrics (snd sa)) \<noteq> RUNNING
      then st
      else if data_cache (snd sa) = [] then st
      else fst (merge_records now (fst sa) (data_cache (snd sa)) st))"

definition consolidate_data :: "clock \<Rightarrow> orchestrator \<Rightarrow> orchestrator" where
  "consolidate_data now s =
     (let existing_players = fst ` set (players s);
          st = foldl (consolidate_source now) (players s, {}) (agents s);
          removed = existing_players - snd st
      in s\<lparr> players := filter (\<lambda>kv. fst kv \<notin> removed) (fst st),
             last_consolidation := Some (secs now) \<rparr>)"

text \<open>
  \<^verbatim>\<open>refresh_agent\<close>. \<open>fetched\<close> is what \<^verbatim>\<open>await agent.scrape_players()\<close> did: it raised
  (\<open>Inl\<close>) or returned the batch (\<open>Inr\<close>). \<open>t0\<close> is the clock before the call, \<open>t1\<close>
  the clock after it. Nothing after the fetch raises: \<^verbatim>\<open>consolidate_data\<close> catches what its
  per-source work raises. The lookup of the agent is before the \<^verbatim>\<open>try\<close>.
\<close>

definition set_slot :: "DataSource \<Rightarrow> agent_slot \<Rightarrow> orchestrator \<Rightarrow> orchestrator" where
  "set_slot source slot s = s\<lparr>agents := AList.update source slot (agents s)\<rparr>"

definition refresh_agent ::
  "DataSource \<Rightarrow> exn + source_player list \<Rightarrow> clock \<Rightarrow> clock \<Rightarrow> orchestrator
     \<Rightarrow> exn + bool \<times> orchestrator" where
  "refresh_agent source fetched t0 t1 s =
     (case map_of (agents s) source of
        None \<Rightarrow> Inl KeyError
      | Some agent \<Rightarrow>
          (let m1 = (metrics agent)\<lparr>agent_status := RUNNING,
                                     last_refresh_attempt := Some (iso t0)\<rparr>
           in case fetched of
                Inl e \<Rightarrow>
                  Inr (False,
                       set_slot source
                         (agent\<lparr>metrics := m1\<lparr>error_count := error_count m1 + 1,
                                                agent_status := ERROR\<rparr>\<rparr>) s)
              | Inr data \<Rightarrow>
                  (let refresh_time_ms = (secs t1 - secs t0) * 1000;
                       m2 = m1\<lparr>average_refresh_time_ms :=
                                  (case average_refresh_time_ms m1 of
                                     None \<Rightarrow> Some refresh_time_ms
                                   | Some a \<Rightarrow> Some (8 / 10 * a + 2 / 10 * refresh_time_ms)),
                               refresh_count := refresh_count m1 + 1,
                               last_successful_refresh := Some (iso t1),
                               player_count := int (length data),
                               agent_status := READY\<rparr>
                   in Inr (True,
                           consolidate_data t1
                             (set_slot source \<lparr>data_cache = data, metrics = m2\<rparr> s)))))"

section \<open>Query engine\<close>

record PortalQuery =
  q_position :: "string option"
  min_ppg :: "rat option"
  school :: "string option"
  q_status :: "string option"
  q_source :: "DataSource option"
  limit :: "int option"
  min_ranking :: "int option"
  max_ranking :: "int option"

definition PortalQuery_default :: PortalQuery where
  "PortalQuery_default =
     \<lparr> q_position = None, min_ppg = None, school = None, q_status = None,
       q_source = Some ALL_src, limit = Some 20, min_ranking = None, max_ranking = None \<rparr>"

text \<open>\<^verbatim>\<open>p.f and q.lower() in p.f.lower()\<close>.\<close>

definition field_matches :: "string \<Rightarrow> string option \<Rightarrow> bool" where
  "field_matches q v = (case present v of None \<Rightarrow> False | Some x \<Rightarrow> str_in (lower q) (lower x))"

definition filter_source :: "PortalQuery \<Rightarrow> TransferPlayer list \<Rightarrow> TransferPlayer list" where
  "filter_source q ps =
     (if q_source q \<noteq> Some ALL_src
      then filter (\<lambda>p. case q_source q of None \<Rightarrow> False | Some x \<Rightarrow> x \<in> set (sources p)) ps
      else ps)"

definition filter_position :: "PortalQuery \<Rightarrow> TransferPlayer list \<Rightarrow> TransferPlayer list" where
  "filter_position q ps =
     (case present (q_position q) of
        Some x \<Rightarrow> filter (\<lambda>p. field_matches x (position p)) ps
      | None \<Rightarrow> ps)"

definition filter_school :: "PortalQuery \<Rightarrow> TransferPlayer list \<Rightarrow> TransferPlayer list" where
  "filter_school q ps =
     (case present (school q) of
        Some x \<Rightarrow>
          filter (\<lambda>p. field_matches x (previous_school p) \<or> field_matches x (destination_school p)) ps
      | None \<Rightarrow> ps)"

definition filter_status :: "PortalQuery \<Rightarrow> TransferPlayer list \<Rightarrow> TransferPlayer list" where
  "filter_status q ps =
     (case present (q_status q) of
        Some x \<Rightarrow> filter (\<lambda>p. field_matches x (status p)) ps
      | None \<Rightarrow> ps)"

definition filter_ppg :: "PortalQuery \<Rightarrow> TransferPlayer list \<Rightarrow> TransferPlayer list" where
  "filter_ppg q ps =
     (case min_ppg q of
        Some m \<Rightarrow>
          filter (\<lambda>p. list_ex (\<lambda>st. case ppg st of None \<Rightarrow> False | Some x \<Rightarrow> x \<noteq> 0 \<and> m \<le> x)
                        (map snd (stats p))) ps
      | None \<Rightarrow> ps)"

definition filter_min_ranking :: "PortalQuery \<Rightarrow> TransferPlayer list \<Rightarrow> TransferPlayer list" where
  "filter_min_ranking q ps =
     (case min_ranking q of
        Some m \<Rightarrow>
          filter (\<lambda>p. case composite_ranking p of None \<Rightarrow> False | Some r \<Rightarrow> r \<noteq> 0 \<and> m \<le> r) ps
      | None \<Rightarrow> ps)"

definition filter_max_ranking :: "PortalQuery \<Rightarrow> TransferPlayer list \<Rightarrow> TransferPlayer list" where
  "filter_max_ranking q ps =
     (case max_ranking q of
        Some m \<Rightarrow>
          filter (\<lambda>p. case composite_ranking p of None \<Rightarrow> False | Some r \<Rightarrow> r \<noteq> 0 \<and> r \<le> m) ps
      | None \<Rightarrow> ps)"

text \<open>
  The first component of the sort key, \<^verbatim>\<open>-(p.composite_ranking or float('inf'))\<close>: the
  negated ranking, or minus infinity when the ranking is \<^verbatim>\<open>None\<close> or 0.
\<close>

datatype neg_rank = MinusInf | Fin int

instantiation neg_rank :: linorder
begin

fun less_eq_neg_rank :: "neg_rank \<Rightarrow> neg_rank \<Rightarrow> bool" where
  "less_eq_neg_rank MinusInf _ = True"
| "less_eq_neg_rank (Fin a) MinusInf = False"
| "less_eq_neg_rank (Fin a) (Fin b) = (a \<le> b)"

definition less_neg_rank :: "neg_rank \<Rightarrow> neg_rank \<Rightarrow> bool" where
  "less_neg_rank x y = (x \<le> y \<and> \<not> y \<le> (x::neg_rank))"

instance
proof
  fix x y z :: neg_rank
  show "(x < y) = (x \<le> y \<and> \<not> y \<le> x)" by (simp add: less_neg_rank_def)
  show "x \<le> x" by (cases x) simp_all
  show "x \<le> y \<Longrightarrow> y \<le> z \<Longrightarrow> x \<le> z" by (cases x; cases y; cases z) simp_all
  show "x \<le> y \<Longrightarrow> y \<le> x \<Longrightarrow> x = y" by (cases x; cases y) simp_all
  show "x \<le> y \<or> y \<le> x" by (cases x; cases y) auto
qed

end

definition ranking_key :: "TransferPlayer \<Rightarrow> neg_rank \<times> string" where
  "ranking_key p =
     ((case composite_ranking p of
         None \<Rightarrow> MinusInf
       | Some r \<Rightarrow> if r \<noteq> 0 then Fin (- r) else MinusInf),
      name p)"

text \<open>\<^verbatim>\<open>xs[:n]\<close>.\<close>

definition py_prefix :: "'a list \<Rightarrow> int \<Rightarrow> 'a list" where
  "py_prefix xs n = (if 0 \<le> n then take (nat n) xs else take (length xs - nat (- n)) xs)"

text \<open>\<^verbatim>\<open>query_players\<close> up to and including the sort: the value of \<^verbatim>\<open>players\<close> at the
  comment \<^verbatim>\<open># Apply limit\<close>.\<close>

definition select_players :: "PortalQuery \<Rightarrow> orchestrator \<Rightarrow> TransferPlayer list" where
  "select_players q s =
     sort_key ranking_key
       (filter_max_ranking q (filter_min_ranking q (filter_ppg q (filter_status q
          (filter_school q (filter_position q (filter_source q (map snd (players s)))))))))"

definition query_players :: "PortalQuery \<Rightarrow> orchestrator \<Rightarrow> TransferPlayer list" where
  "query_players q s =
     (if players s = [] then []
      else (case limit q of
              None \<Rightarrow> select_players q s
            | Some n \<Rightarrow> if n \<noteq> 0 then py_prefix (select_players q s) n else select_players q s))"

text \<open>
  What the seven filters of \<^verbatim>\<open>query_players\<close> test of one player, taken together; used to
  state what the selection returns.
\<close>

definition passes_filters :: "PortalQuery \<Rightarrow> TransferPlayer \<Rightarrow> bool" where
  "passes_filters q p =
     ((case q_source q of None \<Rightarrow> False | Some x \<Rightarrow> x = ALL_src \<or> x \<in> set (sources p)) \<and>
      (case present (q_position q) of None \<Rightarrow> True | Some x \<Rightarrow> field_matches x (position p)) \<and>
      (case present (school q) of
         None \<Rightarrow> True
       | Some x \<Rightarrow> field_matches x (previous_school p) \<or> field_matches x (destination_school p)) \<and>
      (case present (q_status q) of None \<Rightarrow> True | Some x \<Rightarrow> field_matches x (status p)) \<and>
      (case min_ppg q of
         None \<Rightarrow> True
       | Some m \<Rightarrow>
           list_ex (\<lambda>st. case ppg st of None \<Rightarrow> False | Some x \<Rightarrow> x \<noteq> 0 \<and> m \<le> x)
             (map snd (stats p))) \<and>
      (case min_ranking q of
         None \<Rightarrow> True
       | Some m \<Rightarrow> (case composite_ranking p of None \<Rightarrow> False | Some r \<Rightarrow> r \<noteq> 0 \<and> m \<le> r)) \<and>
      (case max_ranking q of
         None \<Rightarrow> True
       | Some m \<Rightarrow> (case composite_ranking p of None \<Rightarrow> False | Some r \<Rightarrow> r \<noteq> 0 \<and> r \<le> m)))"

section \<open>News post-processing\<close>

text \<open>
  \<^verbatim>\<open>TransferNewsItem\<close> with the fields \<^verbatim>\<open>_post_process_news_items\<close> reads or writes; the
  other fields of the class are not touched by it. \<^verbatim>\<open>self.news_items\<close> is a dictionary from
  item id to item; the items of a player's list are the very objects of that dictionary, so
  an item carries its id here and the written items are put back by id.
\<close>

record TransferNewsItem =
  player_name :: string
  publication_date :: string
  n_previous_school :: "string option"
  n_destination_school :: "string option"
  confidence_score :: rat
  verified :: bool

type_synonym news_entry = "string \<times> TransferNewsItem"

text \<open>\<^verbatim>\<open>player_events[item.player_name].append(item)\<close>, with the list created when the
  player has none.\<close>

definition add_event :: "(string \<times> news_entry list) list \<Rightarrow> news_entry \<Rightarrow> (string \<times> news_entry list) list" where
  "add_event ev e =
     (case map_of ev (player_name (snd e)) of
        None \<Rightarrow> AList.update (player_name (snd e)) [e] ev
      | Some its \<Rightarrow> AList.update (player_name (snd e)) (its @ [e]) ev)"

text \<open>\<^verbatim>\<open>if v: counts[v] = counts.get(v, 0) + 1\<close>.\<close>

definition count_school :: "(string \<times> nat) list \<Rightarrow> string option \<Rightarrow> (string \<times> nat) list" where
  "count_school counts v =
     (case present v of
        None \<Rightarrow> counts
      | Some sch \<Rightarrow>
          AList.update sch ((case map_of counts sch of None \<Rightarrow> 0 | Some c \<Rightarrow> c) + 1) counts)"

text \<open>\<^verbatim>\<open>max(counts.items(), key=lambda x: x[1])[0] if counts else None\<close>: the first key, in
  insertion order, with the largest count.\<close>

definition most_common :: "(string \<times> nat) list \<Rightarrow> string option" where
  "most_common counts =
     (case counts of
        [] \<Rightarrow> None
      | c # cs \<Rightarrow> Some (fst (foldl (\<lambda>best x. if snd best < snd x then x else best) c cs)))"

text \<open>The body of the last loop, for one item of a player with \<open>n\<close> items.\<close>

definition adjust_item :: "nat \<Rightarrow> string option \<Rightarrow> string option \<Rightarrow> TransferNewsItem \<Rightarrow> TransferNewsItem" where
  "adjust_item n most_common_prev most_common_dest item =
     (let consistent_prev =
            (if truthy most_common_prev then n_previous_school item = most_common_prev else False);
          consistent_dest =
            (if truthy most_common_dest then n_destination_school item = most_common_dest else False);
          item1 =
            (if consistent_prev \<and> consistent_dest \<and> 3 \<le> n
             then item\<lparr>verified := True,
                       confidence_score := min 1 (confidence_score item + 1 / 10)\<rparr>
             else item)
      in if (truthy most_common_prev \<and> truthy (n_previous_school item1) \<and>
             n_previous_school item1 \<noteq> most_common_prev) \<or>
            (truthy most_common_dest \<and> truthy (n_destination_school item1) \<and>
             n_destination_school item1 \<noteq> most_common_dest)
         then item1\<lparr>confidence_score := max (3 / 10) (confidence_score item1 - 2 / 10)\<rparr>
         else item1)"

text \<open>\<^verbatim>\<open>items.sort(key=lambda x: x.publication_date, reverse=True)\<close>: newest first, items of
  one date in their former order.\<close>

definition newest_first :: "news_entry list \<Rightarrow> news_entry list" where
  "newest_first items = rev (sort_key (\<lambda>e. publication_date (snd e)) (rev items))"

text \<open>The body of \<^verbatim>\<open>for player_name, items in player_events.items()\<close>.\<close>

definition verify_player :: "news_entry list \<Rightarrow> news_entry list" where
  "verify_player items =
     (if 1 < length items then
        (let sorted_items = newest_first items;
             prev_schools = foldl count_school [] (map (\<lambda>e. n_previous_school (snd e)) sorted_items);
             dest_schools = foldl count_school [] (map (\<lambda>e. n_destination_school (snd e)) sorted_items);
             most_common_prev = most_common prev_schools;
             most_common_dest = most_common dest_schools
         in map (\<lambda>e. (fst e, adjust_item (length sorted_items) most_common_prev most_common_dest (snd e)))
              sorted_items)
      else items)"

definition post_process_news_items :: "news_entry list \<Rightarrow> news_entry list" where
  "post_process_news_items news_items =
     (let player_events = foldl add_event [] news_items;
          written = concat (map (\<lambda>pe. verify_player (snd pe)) player_events)
      in map (\<lambda>e. (fst e, case map_of written (fst e) of None \<Rightarrow> snd e | Some item \<Rightarrow> item))
           news_items)"

text \<open>
  Names for what the post-processing computes for one player, used to state its effect: the
  player's signals, and the school most often given as previous and as destination school
  among them (the first to reach the largest count, going from the newest signal to the
  oldest).
\<close>

definition signals_of :: "news_entry list \<Rightarrow> string \<Rightarrow> news_entry list" where
  "signals_of news_items who = filter (\<lambda>e. player_name (snd e) = who) news_items"

definition majority_prev :: "news_entry list \<Rightarrow> string option" where
  "majority_prev items =
     most_common (foldl count_school [] (map (\<lambda>e. n_previous_school (snd e)) (newest_first items)))"

definition majority_dest :: "news_entry list \<Rightarrow> string option" where
  "majority_dest items =
     most_common (foldl count_school [] (map (\<lambda>e. n_destination_school (snd e)) (newest_first items)))"

section \<open>Example values\<close>

definition tick :: "string \<Rightarrow> clock" where
  "tick t = \<lparr>iso = t, secs = 0\<rparr>"

definition blank_record :: source_player where
  "blank_record =
     \<lparr> r_name = None, r_position = None, r_height = None, r_previous_school = None,
       r_last_team = None, r_class_year = None, r_eligibility = None, r_status = None,
       r_destination_school = None, r_new_team = None, r_rank = None, r_stats = None,
       r_nil_valuation = None, r_profile_url = None \<rparr>"

definition named :: "string \<Rightarrow> source_player" where
  "named n = blank_record\<lparr>r_name := Some n\<rparr>"

definition guard_player :: TransferPlayer where
  "guard_player = (new_player ''amy'' ''Amy'' ON3)\<lparr>position := Some ''PG''\<rparr>"

definition ranked_player :: TransferPlayer where
  "ranked_player = (new_player ''amy'' ''Amy'' ON3)\<lparr>rankings := [(ON3, 5), (TWO47, 7)],
                                                     composite_ranking := Some 6\<rparr>"

text \<open>The store of the query-ordering example: Zed without a ranking, Amy ranked 10, Bo
  ranked 3.\<close>

definition ranking_store :: orchestrator where
  "ranking_store =
     init\<lparr>players :=
       [(''zed'', new_player ''zed'' ''Zed'' ON3),
        (''amy'', (new_player ''amy'' ''Amy'' ON3)\<lparr>composite_ranking := Some 10\<rparr>),
        (''bo'', (new_player ''bo'' ''Bo'' ON3)\<lparr>composite_ranking := Some 3\<rparr>)]\<rparr>"

text \<open>A READY source whose batch has a record without a name between two good ones.\<close>

definition ready_slot :: "source_player list \<Rightarrow> agent_slot" where
  "ready_slot d = \<lparr>data_cache = d, metrics = AgentMetrics_default\<lparr>agent_status := READY\<rparr>\<rparr>"

definition malformed_batch :: "source_player list" where
  "malformed_batch = [named ''Amy'', blank_record, named ''Bo'']"

text \<open>A query with no filter and no limit.\<close>

definition everything :: PortalQuery where
  "everything = PortalQuery_default\<lparr>limit := None\<rparr>"

text \<open>What a call of \<^verbatim>\<open>refresh_agent\<close> returned and the state it left, for the examples.\<close>

definition returned :: "exn + bool \<times> orchestrator \<Rightarrow> bool option" where
  "returned r = (case r of Inl e \<Rightarrow> None | Inr bs \<Rightarrow> Some (fst bs))"

definition state_after :: "orchestrator \<Rightarrow> exn + bool \<times> orchestrator \<Rightarrow> orchestrator" where
  "state_after s r = (case r of Inl e \<Rightarrow> s | Inr bs \<Rightarrow> snd bs)"

text \<open>
  Three refreshes in a row, from the initial state: Rivals succeeds with Bob, Rivals fails,
  ON3 succeeds with Amy.
\<close>

definition bob_state :: orchestrator where
  "bob_state =
     state_after init (refresh_agent RIVALS (Inr [named ''Bob'']) (tick ''09:00'') (tick ''09:01'') init)"

definition bob_stale_state :: orchestrator where
  "bob_stale_state =
     state_after bob_state
       (refresh_agent RIVALS (Inl FetchError) (tick ''10:00'') (tick ''10:01'') bob_state)"

definition amy_state :: orchestrator where
  "amy_state =
     state_after bob_stale_state
       (refresh_agent ON3 (Inr [named ''Amy'']) (tick ''10:02'') (tick ''10:03'') bob_stale_state)"

text \<open>Signals about one player, each with confidence 0.8 and not verified.\<close>

definition signal :: "string \<Rightarrow> string option \<Rightarrow> string option \<Rightarrow> TransferNewsItem" where
  "signal date prev dest =
     \<lparr> player_name = ''John Smith'', publication_date = date, n_previous_school = prev,
       n_destination_school = dest, confidence_score = 8 / 10, verified = False \<rparr>"

definition three_signals :: "news_entry list" where
  "three_signals =
     [(''n1'', signal ''2024-04-03'' (Some ''UNC'') (Some ''Duke'')),
      (''n2'', signal ''2024-04-02'' (Some ''UNC'') (Some ''Kentucky'')),
      (''n3'', signal ''2024-04-01'' (Some ''UNC'') (Some ''Duke''))]"

definition three_signals_no_origin :: "news_entry list" where
  "three_signals_no_origin =
     [(''n1'', signal ''2024-04-03'' None (Some ''Duke'')),
      (''n2'', signal ''2024-04-02'' None (Some ''Kentucky'')),
      (''n3'', signal ''2024-04-01'' None (Some ''Duke''))]"

definition two_signals :: "news_entry list" where
  "two_signals =
     [(''n1'', signal ''2024-04-03'' None (Some ''Duke'')),
      (''n2'', signal ''2024-04-02'' None (Some ''Kentucky''))]"

section \<open>Record merger: what each half of a merge touches\<close>

lemma update_nonempty: "AList.update k v al \<noteq> []"
  by (cases al) simp_all

lemma present_truthy: "truthy v \<Longrightarrow> present v = v"
  by (simp add: present_def)

lemma case_present_truthy:
  "truthy v \<Longrightarrow> (case present v of Some x \<Rightarrow> Some x | None \<Rightarrow> d) = v"
  by (cases v) (simp_all add: present_def truthy_def)

lemma present_Some_truthy: "present v = Some x \<Longrightarrow> truthy v \<and> v = Some x"
  by (simp add: present_def split: if_splits)

lemma update_keyed_scalars:
  "position (update_keyed p sp source now) = position p"
  "height (update_keyed p sp source now) = height p"
  "previous_school (update_keyed p sp source now) = previous_school p"
  "class_year (update_keyed p sp source now) = class_year p"
  "eligibility (update_keyed p sp source now) = eligibility p"
  "status (update_keyed p sp source now) = status p"
  "destination_school (update_keyed p sp source now) = destination_school p"
  by (simp_all add: update_keyed_def Let_def split: option.splits)

lemma update_keyed_fixed:
  "player_id (update_keyed p sp source now) = player_id p"
  "name (update_keyed p sp source now) = name p"
  "weight (update_keyed p sp source now) = weight p"
  "transfer_date (update_keyed p sp source now) = transfer_date p"
  "sources (update_keyed p sp source now) = sources p"
  "TransferPlayer.more (update_keyed p sp source now) = TransferPlayer.more p"
  by (simp_all add: update_keyed_def Let_def split: option.splits)

lemma update_keyed_fields:
  "last_updated (update_keyed p sp source now) = AList.update source (iso now) (last_updated p)"
  "profile_urls (update_keyed p sp source now) =
     (case present (r_profile_url sp) of
        Some u \<Rightarrow> AList.update source u (profile_urls p) | None \<Rightarrow> profile_urls p)"
  "rankings (update_keyed p sp source now) =
     (case r_rank sp of
        Some r \<Rightarrow> if r \<noteq> 0 then AList.update source r (rankings p) else rankings p
      | None \<Rightarrow> rankings p)"
  "composite_ranking (update_keyed p sp source now) =
     (case r_rank sp of
        Some r \<Rightarrow> if r \<noteq> 0 then Some (mean_rank (AList.update source r (rankings p)))
                  else composite_ranking p
      | None \<Rightarrow> composite_ranking p)"
  "stats (update_keyed p sp source now) =
     (case r_stats sp of
        Some d \<Rightarrow> if d \<noteq> [] then AList.update source (stats_of_dict d source) (stats p) else stats p
      | None \<Rightarrow> stats p)"
  "nil_valuation (update_keyed p sp source now) =
     (case present (r_nil_valuation sp) of
        Some v \<Rightarrow> AList.update source v (nil_valuation p) | None \<Rightarrow> nil_valuation p)"
  by (simp_all add: update_keyed_def Let_def update_nonempty split: option.splits)

lemma any_basic_keyed: "any_basic (update_keyed p sp source now) = any_basic p"
  by (simp add: any_basic_def update_keyed_scalars)

lemma update_basic_keyed:
  "update_basic (update_keyed p sp source now) source = update_basic p source"
  by (simp add: update_basic_def any_basic_keyed)

lemma set_basic_keyed_fields:
  "last_updated (set_basic p sp) = last_updated p"
  "profile_urls (set_basic p sp) = profile_urls p"
  "rankings (set_basic p sp) = rankings p"
  "composite_ranking (set_basic p sp) = composite_ranking p"
  "stats (set_basic p sp) = stats p"
  "nil_valuation (set_basic p sp) = nil_valuation p"
  by (simp_all add: set_basic_def Let_def split: option.splits)

lemma set_basic_fixed:
  "player_id (set_basic p sp) = player_id p"
  "name (set_basic p sp) = name p"
  "weight (set_basic p sp) = weight p"
  "transfer_date (set_basic p sp) = transfer_date p"
  "sources (set_basic p sp) = sources p"
  "TransferPlayer.more (set_basic p sp) = TransferPlayer.more p"
  by (simp_all add: set_basic_def Let_def split: option.splits)

lemma set_basic_fields:
  "position (set_basic p sp) =
     (case present (r_position sp) of Some v \<Rightarrow> Some v | None \<Rightarrow> position p)"
  "height (set_basic p sp) =
     (case present (r_height sp) of Some v \<Rightarrow> Some v | None \<Rightarrow> height p)"
  "previous_school (set_basic p sp) =
     (case present (r_previous_school sp) of
        Some v \<Rightarrow> Some v
      | None \<Rightarrow> (case present (r_last_team sp) of Some v \<Rightarrow> Some v | None \<Rightarrow> previous_school p))"
  "class_year (set_basic p sp) =
     (case present (r_class_year sp) of Some v \<Rightarrow> Some v | None \<Rightarrow> class_year p)"
  "eligibility (set_basic p sp) =
     (case present (r_eligibility sp) of Some v \<Rightarrow> Some v | None \<Rightarrow> eligibility p)"
  "status (set_basic p sp) =
     (case present (r_status sp) of Some v \<Rightarrow> Some v | None \<Rightarrow> status p)"
  "destination_school (set_basic p sp) =
     (case present (r_destination_school sp) of
        Some v \<Rightarrow> Some v
      | None \<Rightarrow>
          (case present (r_new_team sp) of
             Some v \<Rightarrow> if v \<noteq> ''N/A'' then Some v else destination_school p
           | None \<Rightarrow> destination_school p))"
  by (simp_all add: set_basic_def Let_def split: option.splits)

lemmas merge_fields =
  update_keyed_scalars update_keyed_fixed update_keyed_fields
  set_basic_keyed_fields set_basic_fixed set_basic_fields

lemma merge_gated:
  "\<not> update_basic p source \<Longrightarrow>
     update_player_from_source p sp source now = update_keyed p sp source now"
  by (simp add: update_player_from_source_def Let_def update_basic_keyed)

lemma merge_open:
  "update_basic p source \<Longrightarrow>
     update_player_from_source p sp source now = set_basic (update_keyed p sp source now) sp"
  by (simp add: update_player_from_source_def Let_def update_basic_keyed)

lemma merge_name: "name (update_player_from_source p sp source now) = name p"
  by (cases "update_basic p source") (simp_all add: merge_gated merge_open merge_fields)

lemma merge_player_id: "player_id (update_player_from_source p sp source now) = player_id p"
  by (cases "update_basic p source") (simp_all add: merge_gated merge_open merge_fields)

lemma merge_sources: "sources (update_player_from_source p sp source now) = sources p"
  by (cases "update_basic p source") (simp_all add: merge_gated merge_open merge_fields)

lemma non_authoritative_gated:
  assumes "source \<noteq> ON3" and "any_basic p"
  shows "position (update_player_from_source p sp source now) = position p"
    and "height (update_player_from_source p sp source now) = height p"
    and "previous_school (update_player_from_source p sp source now) = previous_school p"
    and "class_year (update_player_from_source p sp source now) = class_year p"
    and "eligibility (update_player_from_source p sp source now) = eligibility p"
    and "status (update_player_from_source p sp source now) = status p"
    and "destination_school (update_player_from_source p sp source now) = destination_school p"
proof -
  have "\<not> update_basic p source"
    using assms by (simp add: update_basic_def)
  then have eq: "update_player_from_source p sp source now = update_keyed p sp source now"
    by (rule merge_gated)
  show "position (update_player_from_source p sp source now) = position p"
    and "height (update_player_from_source p sp source now) = height p"
    and "previous_school (update_player_from_source p sp source now) = previous_school p"
    and "class_year (update_player_from_source p sp source now) = class_year p"
    and "eligibility (update_player_from_source p sp source now) = eligibility p"
    and "status (update_player_from_source p sp source now) = status p"
    and "destination_school (update_player_from_source p sp source now) = destination_school p"
    by (simp_all only: eq update_keyed_scalars)
qed

section \<open>Non-overwrite by the non-authoritative sources\<close>

text \<open>
  C4. A source other than ON3 never overwrites a scalar field that already has a value:
  with the position set, a merge from such a source leaves the position as it was, whatever
  position the raw record carries, and the same holds for height, previous school, class
  year, eligibility, status and destination school.
\<close>

theorem non_authoritative_never_overwrites:
  assumes "source \<noteq> ON3"
  shows "(truthy (position p) \<longrightarrow>
            position (update_player_from_source p sp source now) = position p) \<and>
         (truthy (height p) \<longrightarrow>
            height (update_player_from_source p sp source now) = height p) \<and>
         (truthy (previous_school p) \<longrightarrow>
            previous_school (update_player_from_source p sp source now) = previous_school p) \<and>
         (truthy (destination_school p) \<longrightarrow>
            destination_school (update_player_from_source p sp source now) = destination_school p) \<and>
         (truthy (class_year p) \<longrightarrow>
            class_year (update_player_from_source p sp source now) = class_year p) \<and>
         (truthy (eligibility p) \<longrightarrow>
            eligibility (update_player_from_source p sp source now) = eligibility p) \<and>
         (truthy (status p) \<longrightarrow>
            status (update_player_from_source p sp source now) = status p)"
  using non_authoritative_gated [OF assms, of p sp now]
  by (simp add: any_basic_def)

theorem non_authoritative_never_overwrites_witness:
  "RIVALS \<noteq> ON3 \<and> truthy (position guard_player) \<and>
   r_position (blank_record\<lparr>r_position := Some ''SG''\<rparr>) = Some ''SG'' \<and>
   position (update_player_from_source guard_player (blank_record\<lparr>r_position := Some ''SG''\<rparr>)
     RIVALS (tick ''t'')) = Some ''PG''"
  using non_authoritative_never_overwrites
    [of RIVALS guard_player "blank_record\<lparr>r_position := Some ''SG''\<rparr>" "tick ''t''"]
  by (simp add: guard_player_def new_player_def truthy_def)

section \<open>Gap filling by the non-authoritative sources\<close>

text \<open>
  C5, as the claim states it, fails: the gate is one test on all seven scalar fields, not a
  test per field. A record whose position is set and whose height is empty keeps its empty
  height when RIVALS supplies one.
\<close>

theorem gap_filling_per_field_counterexample:
  "RIVALS \<noteq> ON3 \<and> height guard_player = None \<and>
   r_height (blank_record\<lparr>r_height := Some ''6-5''\<rparr>) = Some ''6-5'' \<and>
   height (update_player_from_source guard_player (blank_record\<lparr>r_height := Some ''6-5''\<rparr>)
     RIVALS (tick ''t'')) = None"
proof -
  have a: "any_basic guard_player"
    by (simp add: any_basic_def guard_player_def new_player_def truthy_def)
  have "height (update_player_from_source guard_player (blank_record\<lparr>r_height := Some ''6-5''\<rparr>)
     RIVALS (tick ''t'')) = height guard_player"
    by (rule non_authoritative_gated(2) [OF _ a]) simp
  then show ?thesis
    by (simp add: guard_player_def new_player_def)
qed

text \<open>
  C5, amended. For a source other than ON3 the gap filling is all or nothing. When none of
  the seven scalar fields of the consolidated record has a value, every scalar field the
  raw record supplies is populated with the supplied value. When at least one of them has a
  value, the merge populates no scalar field: each keeps the value, or the absence of one,
  that it had.
\<close>

theorem non_authoritative_fills_blank_record_only:
  assumes "source \<noteq> ON3"
  shows "(\<not> any_basic p \<longrightarrow>
            (truthy (r_position sp) \<longrightarrow>
               position (update_player_from_source p sp source now) = r_position sp) \<and>
            (truthy (r_height sp) \<longrightarrow>
               height (update_player_from_source p sp source now) = r_height sp) \<and>
            (truthy (r_previous_school sp) \<longrightarrow>
               previous_school (update_player_from_source p sp source now) = r_previous_school sp) \<and>
            (truthy (r_destination_school sp) \<longrightarrow>
               destination_school (update_player_from_source p sp source now) =
                 r_destination_school sp) \<and>
            (truthy (r_class_year sp) \<longrightarrow>
               class_year (update_player_from_source p sp source now) = r_class_year sp) \<and>
            (truthy (r_eligibility sp) \<longrightarrow>
               eligibility (update_player_from_source p sp source now) = r_eligibility sp) \<and>
            (truthy (r_status sp) \<longrightarrow>
               status (update_player_from_source p sp source now) = r_status sp)) \<and>
         (any_basic p \<longrightarrow>
            position (update_player_from_source p sp source now) = position p \<and>
            height (update_player_from_source p sp source now) = height p \<and>
            previous_school (update_player_from_source p sp source now) = previous_school p \<and>
            destination_school (update_player_from_source p sp source now) = destination_school p \<and>
            class_year (update_player_from_source p sp source now) = class_year p \<and>
            eligibility (update_player_from_source p sp source now) = eligibility p \<and>
            status (update_player_from_source p sp source now) = status p)"
proof (cases "any_basic p")
  case True
  then show ?thesis
    using non_authoritative_gated [OF assms True, of sp now] by simp
next
  case False
  then have "update_basic p source"
    by (simp add: update_basic_def)
  then have eq: "update_player_from_source p sp source now = set_basic (update_keyed p sp source now) sp"
    by (rule merge_open)
  show ?thesis
    using False by (simp add: eq set_basic_fields case_present_truthy)
qed

theorem non_authoritative_fills_blank_record_only_witness:
  "RIVALS \<noteq> ON3 \<and> \<not> any_basic (new_player ''amy'' ''Amy'' RIVALS) \<and> any_basic guard_player \<and>
   truthy (r_height (blank_record\<lparr>r_height := Some ''6-5''\<rparr>)) \<and>
   height (update_player_from_source (new_player ''amy'' ''Amy'' RIVALS)
     (blank_record\<lparr>r_height := Some ''6-5''\<rparr>) RIVALS (tick ''t'')) = Some ''6-5'' \<and>
   height (update_player_from_source guard_player
     (blank_record\<lparr>r_height := Some ''6-5''\<rparr>) RIVALS (tick ''t'')) = None"
  using non_authoritative_fills_blank_record_only
    [of RIVALS "new_player ''amy'' ''Amy'' RIVALS" "blank_record\<lparr>r_height := Some ''6-5''\<rparr>" "tick ''t''"]
    non_authoritative_fills_blank_record_only
    [of RIVALS guard_player "blank_record\<lparr>r_height := Some ''6-5''\<rparr>" "tick ''t''"]
  by (simp add: any_basic_def guard_player_def new_player_def truthy_def)

section \<open>Composite ranking\<close>

lemma py_int_of_int: "py_int (of_int k) = k"
  by (simp add: py_int_def)

lemma mean_rank_nonneg:
  assumes "0 \<le> sum_list (map snd rs)"
  shows "mean_rank rs = sum_list (map snd rs) div int (length rs)"
proof -
  have "(0::rat) \<le> of_int (sum_list (map snd rs)) / of_nat (length rs)"
    using assms by simp
  moreover have "\<lfloor>(of_int (sum_list (map snd rs)) :: rat) / of_int (int (length rs))\<rfloor> =
      sum_list (map snd rs) div int (length rs)"
    by (rule floor_divide_of_int_eq)
  ultimately show ?thesis
    by (simp add: mean_rank_def py_int_def)
qed

text \<open>
  C6. Whenever a merge records a rank for its source (the raw record carries a rank that is
  not zero), the composite ranking is set to the mean of all the ranks then present, every
  one counted once, truncated to an integer. With ranks 5 (ON3) and 7 (247Sports) present, a
  merge of rank 9 from Rivals gives int((5+7+9)/3) = 7.
\<close>

theorem composite_ranking_is_truncated_mean:
  assumes "r_rank sp = Some r" and "r \<noteq> 0"
  shows "rankings (update_player_from_source p sp source now) = AList.update source r (rankings p) \<and>
         composite_ranking (update_player_from_source p sp source now) =
           Some (py_int
             (of_int (sum_list (map snd (rankings (update_player_from_source p sp source now)))) /
              of_nat (length (rankings (update_player_from_source p sp source now)))))"
proof -
  have k: "rankings (update_keyed p sp source now) = AList.update source r (rankings p)"
    "composite_ranking (update_keyed p sp source now) =
       Some (mean_rank (AList.update source r (rankings p)))"
    using assms by (simp_all add: update_keyed_fields)
  have "rankings (update_player_from_source p sp source now) = AList.update source r (rankings p)"
    and "composite_ranking (update_player_from_source p sp source now) =
       Some (mean_rank (AList.update source r (rankings p)))"
    using k by (cases "update_basic p source"; simp add: merge_gated merge_open set_basic_keyed_fields)+
  then show ?thesis
    by (simp add: mean_rank_def)
qed

theorem composite_ranking_is_truncated_mean_witness:
  "r_rank (blank_record\<lparr>r_rank := Some 9\<rparr>) = Some 9 \<and> (9::int) \<noteq> 0 \<and>
   rankings (update_player_from_source ranked_player (blank_record\<lparr>r_rank := Some 9\<rparr>) RIVALS (tick ''t''))
     = [(ON3, 5), (TWO47, 7), (RIVALS, 9)] \<and>
   composite_ranking
     (update_player_from_source ranked_player (blank_record\<lparr>r_rank := Some 9\<rparr>) RIVALS (tick ''t''))
     = Some 7"
proof -
  let ?u = "update_player_from_source ranked_player (blank_record\<lparr>r_rank := Some 9\<rparr>) RIVALS (tick ''t'')"
  have r: "r_rank (blank_record\<lparr>r_rank := Some 9\<rparr>) = Some 9"
    by simp
  have n: "(9::int) \<noteq> 0"
    by simp
  note t = composite_ranking_is_truncated_mean [OF r n, of ranked_player RIVALS "tick ''t''"]
  have rk: "rankings ?u = [(ON3, 5), (TWO47, 7), (RIVALS, 9)]"
    using t by (simp add: ranked_player_def new_player_def)
  have m: "py_int (rat_of_int (sum_list (map snd [(ON3, 5), (TWO47, 7), (RIVALS, 9::int)])) /
                  rat_of_nat (length [(ON3, 5), (TWO47, 7), (RIVALS, 9::int)])) = 7"
    by (simp add: py_int_def)
  have "composite_ranking ?u = Some 7"
    using conjunct2 [OF t] unfolding rk m .
  with r n rk show ?thesis
    by blast
qed

section \<open>Repeated merges\<close>

lemma update_keyed_twice:
  "update_keyed (update_keyed p sp source c1) sp source c2 =
     (update_keyed p sp source c1)
       \<lparr>last_updated := AList.update source (iso c2) (last_updated (update_keyed p sp source c1))\<rparr>"
  by (rule TransferPlayer.equality) (simp_all add: merge_fields split: option.splits)

lemma set_basic_after_keyed:
  "update_keyed (set_basic p sp) sp source c2 = set_basic (update_keyed p sp source c2) sp"
  by (rule TransferPlayer.equality) (simp_all add: merge_fields split: option.splits)

lemma set_basic_twice: "set_basic (set_basic p sp) sp = set_basic p sp"
  by (rule TransferPlayer.equality) (simp_all add: merge_fields split: option.splits)

lemma set_basic_last_updated:
  "set_basic (p\<lparr>last_updated := l\<rparr>) sp = (set_basic p sp)\<lparr>last_updated := l\<rparr>"
  by (rule TransferPlayer.equality) (simp_all add: merge_fields split: option.splits)

text \<open>
  C9, as the claim states it, fails: the merge stamps the source's \<^verbatim>\<open>last_updated\<close> entry
  with the clock, so the second merge of the same record leaves a player that differs from
  the first in that field as soon as the clock has moved.
\<close>

theorem merge_twice_counterexample:
  "update_player_from_source
     (update_player_from_source (new_player ''amy'' ''Amy'' ON3) (named ''Amy'') ON3 (tick ''10:00''))
     (named ''Amy'') ON3 (tick ''10:05'')
   \<noteq> update_player_from_source (new_player ''amy'' ''Amy'' ON3) (named ''Amy'') ON3 (tick ''10:00'')"
proof
  let ?u1 = "update_player_from_source (new_player ''amy'' ''Amy'' ON3) (named ''Amy'') ON3 (tick ''10:00'')"
  assume "update_player_from_source ?u1 (named ''Amy'') ON3 (tick ''10:05'') = ?u1"
  then have "last_updated (update_player_from_source ?u1 (named ''Amy'') ON3 (tick ''10:05'')) =
      last_updated ?u1"
    by simp
  moreover have "update_basic p ON3" for p
    by (simp add: update_basic_def)
  ultimately show False
    by (simp add: merge_open merge_fields new_player_def tick_def)
qed

text \<open>
  C9, amended. Merging the same raw record from the same source a second time changes
  nothing but that source's \<^verbatim>\<open>last_updated\<close> entry, which takes the time of the second
  merge: every other field of the player is as the first merge left it.
\<close>

theorem merge_twice_drifts_only_timestamp:
  "update_player_from_source (update_player_from_source p sp source c1) sp source c2 =
     (update_player_from_source p sp source c1)
       \<lparr>last_updated :=
          AList.update source (iso c2) (last_updated (update_player_from_source p sp source c1))\<rparr>"
proof -
  let ?k1 = "update_keyed p sp source c1"
  show ?thesis
  proof (cases "update_basic p source")
    case False
    have u1: "update_player_from_source p sp source c1 = ?k1"
      using False by (rule merge_gated)
    have "\<not> update_basic ?k1 source"
      using False by (simp add: update_basic_keyed)
    then have "update_player_from_source ?k1 sp source c2 = update_keyed ?k1 sp source c2"
      by (rule merge_gated)
    then show ?thesis
      by (simp only: u1 update_keyed_twice)
  next
    case True
    let ?u1 = "set_basic ?k1 sp"
    have u1: "update_player_from_source p sp source c1 = ?u1"
      using True by (rule merge_open)
    have k2: "update_keyed ?u1 sp source c2 =
        ?u1\<lparr>last_updated := AList.update source (iso c2) (last_updated ?u1)\<rparr>"
      by (simp only: set_basic_after_keyed update_keyed_twice set_basic_last_updated
            set_basic_keyed_fields)
    show ?thesis
    proof (cases "update_basic ?u1 source")
      case False
      then have "update_player_from_source ?u1 sp source c2 = update_keyed ?u1 sp source c2"
        by (rule merge_gated)
      then show ?thesis
        by (simp only: u1 k2)
    next
      case True
      then have "update_player_from_source ?u1 sp source c2 =
          set_basic (update_keyed ?u1 sp source c2) sp"
        by (rule merge_open)
      then show ?thesis
        by (simp only: u1 k2 set_basic_last_updated set_basic_twice)
    qed
  qed
qed

section \<open>Query engine: selection, order and limit\<close>

lemma filters_ignore_limit:
  "filter_source (q\<lparr>limit := l\<rparr>) = filter_source q"
  "filter_position (q\<lparr>limit := l\<rparr>) = filter_position q"
  "filter_school (q\<lparr>limit := l\<rparr>) = filter_school q"
  "filter_status (q\<lparr>limit := l\<rparr>) = filter_status q"
  "filter_ppg (q\<lparr>limit := l\<rparr>) = filter_ppg q"
  "filter_min_ranking (q\<lparr>limit := l\<rparr>) = filter_min_ranking q"
  "filter_max_ranking (q\<lparr>limit := l\<rparr>) = filter_max_ranking q"
  by (simp_all add: fun_eq_iff filter_source_def filter_position_def filter_school_def
        filter_status_def filter_ppg_def filter_min_ranking_def filter_max_ranking_def)

lemma select_players_ignores_limit: "select_players (q\<lparr>limit := l\<rparr>) s = select_players q s"
  by (simp add: select_players_def filters_ignore_limit)

lemma filters_are_passes:
  "filter_max_ranking q (filter_min_ranking q (filter_ppg q (filter_status q
     (filter_school q (filter_position q (filter_source q ps)))))) = filter (passes_filters q) ps"
proof -
  have 1: "filter_source q ps =
      filter (\<lambda>p. case q_source q of None \<Rightarrow> False | Some x \<Rightarrow> x = ALL_src \<or> x \<in> set (sources p)) ps"
    by (cases "q_source q") (auto simp: filter_source_def intro: filter_cong)
  have 2: "filter_position q xs =
      filter (\<lambda>p. case present (q_position q) of None \<Rightarrow> True | Some x \<Rightarrow> field_matches x (position p)) xs"
    for xs by (simp add: filter_position_def split: option.splits)
  have 3: "filter_school q xs =
      filter (\<lambda>p. case present (school q) of None \<Rightarrow> True
        | Some x \<Rightarrow> field_matches x (previous_school p) \<or> field_matches x (destination_school p)) xs"
    for xs by (simp add: filter_school_def split: option.splits)
  have 4: "filter_status q xs =
      filter (\<lambda>p. case present (q_status q) of None \<Rightarrow> True | Some x \<Rightarrow> field_matches x (status p)) xs"
    for xs by (simp add: filter_status_def split: option.splits)
  have 5: "filter_ppg q xs =
      filter (\<lambda>p. case min_ppg q of None \<Rightarrow> True
        | Some m \<Rightarrow> list_ex (\<lambda>st. case ppg st of None \<Rightarrow> False | Some x \<Rightarrow> x \<noteq> 0 \<and> m \<le> x)
            (map snd (stats p))) xs"
    for xs by (simp add: filter_ppg_def split: option.splits)
  have 6: "filter_min_ranking q xs =
      filter (\<lambda>p. case min_ranking q of None \<Rightarrow> True
        | Some m \<Rightarrow> (case composite_ranking p of None \<Rightarrow> False | Some r \<Rightarrow> r \<noteq> 0 \<and> m \<le> r)) xs"
    for xs by (simp add: filter_min_ranking_def split: option.splits)
  have 7: "filter_max_ranking q xs =
      filter (\<lambda>p. case max_ranking q of None \<Rightarrow> True
        | Some m \<Rightarrow> (case composite_ranking p of None \<Rightarrow> False | Some r \<Rightarrow> r \<noteq> 0 \<and> r \<le> m)) xs"
    for xs by (simp add: filter_max_ranking_def split: option.splits)
  show ?thesis
    unfolding 1 2 3 4 5 6 7 filter_filter passes_filters_def
    by (rule filter_cong) auto
qed

lemma select_players_passes:
  "select_players q s = sort_key ranking_key (filter (passes_filters q) (map snd (players s)))"
  by (simp only: select_players_def filters_are_passes)

lemma select_players_sorted: "sorted (map ranking_key (select_players q s))"
  by (simp add: select_players_passes)

lemma select_players_empty: "players s = [] \<Longrightarrow> select_players q s = []"
  by (simp add: select_players_passes)

lemma negative_limit_drops_tail:
  "query_players (q\<lparr>limit := Some (- int (Suc n))\<rparr>) s =
     take (length (select_players q s) - Suc n) (select_players q s)"
proof -
  have "nat (int n + 1) = Suc n"
    by arith
  then show ?thesis
    by (cases "players s = []")
       (simp_all add: query_players_def select_players_ignores_limit select_players_empty
          py_prefix_def)
qed

text \<open>
  C1 fails on the code. The key of the sort is \<^verbatim>\<open>-(p.composite_ranking or float('inf'))\<close>,
  so a player without a ranking has the key minus infinity and an ascending sort puts it
  first, not last: the store with Zed (no ranking), Amy (10) and Bo (3) is returned in the
  order Zed, Amy, Bo. Among the ranked players the order is descending by ranking, with ties
  in ascending order of name.
\<close>

theorem query_players_unranked_first:
  "map name (query_players PortalQuery_default ranking_store) = [''Zed'', ''Amy'', ''Bo'']"
  by code_simp

text \<open>
  C10. A limit of \<^verbatim>\<open>None\<close> or 0 truncates nothing: the call returns the whole selection,
  which is every stored player that passes the filters, sorted. A positive limit \<open>n\<close>
  returns the first \<open>n\<close> players of that same selection, so the cut comes after filtering
  and sorting. A query built without a limit has the limit 20.
\<close>

theorem limit_applies_after_selection:
  "(limit q = None \<or> limit q = Some 0 \<longrightarrow> query_players q s = select_players q s) \<and>
   (\<forall>n. limit q = Some n \<and> 0 < n \<longrightarrow> query_players q s = take (nat n) (select_players q s)) \<and>
   select_players q s = sort_key ranking_key (filter (passes_filters q) (map snd (players s))) \<and>
   limit PortalQuery_default = Some 20"
proof (intro conjI allI impI)
  assume "limit q = None \<or> limit q = Some 0"
  then show "query_players q s = select_players q s"
    by (cases "players s = []") (auto simp: query_players_def select_players_empty)
next
  fix n
  assume "limit q = Some n \<and> 0 < n"
  then show "query_players q s = take (nat n) (select_players q s)"
    by (cases "players s = []") (auto simp: query_players_def select_players_empty py_prefix_def)
next
  show "select_players q s = sort_key ranking_key (filter (passes_filters q) (map snd (players s)))"
    by (rule select_players_passes)
next
  show "limit PortalQuery_default = Some 20"
    by (simp add: PortalQuery_default_def)
qed

theorem limit_applies_after_selection_witness:
  "limit (PortalQuery_default\<lparr>limit := Some 0\<rparr>) = Some 0 \<and>
   map name (query_players (PortalQuery_default\<lparr>limit := Some 0\<rparr>) ranking_store) =
     [''Zed'', ''Amy'', ''Bo''] \<and>
   limit (PortalQuery_default\<lparr>limit := Some 2\<rparr>) = Some 2 \<and> (0::int) < 2 \<and>
   map name (query_players (PortalQuery_default\<lparr>limit := Some 2\<rparr>) ranking_store) =
     [''Zed'', ''Amy'']"
proof -
  have sel: "map name (select_players q ranking_store) = [''Zed'', ''Amy'', ''Bo'']"
    if "q = PortalQuery_default\<lparr>limit := l\<rparr>" for q l
  proof -
    have "map name (select_players PortalQuery_default ranking_store) = [''Zed'', ''Amy'', ''Bo'']"
      by code_simp
    then show ?thesis
      by (simp add: that select_players_ignores_limit)
  qed
  have a: "query_players (PortalQuery_default\<lparr>limit := Some 0\<rparr>) ranking_store =
      select_players (PortalQuery_default\<lparr>limit := Some 0\<rparr>) ranking_store"
    using limit_applies_after_selection [of "PortalQuery_default\<lparr>limit := Some 0\<rparr>" ranking_store]
    by simp
  have b: "query_players (PortalQuery_default\<lparr>limit := Some 2\<rparr>) ranking_store =
      take (nat 2) (select_players (PortalQuery_default\<lparr>limit := Some 2\<rparr>) ranking_store)"
    using limit_applies_after_selection [of "PortalQuery_default\<lparr>limit := Some 2\<rparr>" ranking_store]
    by simp
  have c: "map name (take 2 xs) = take 2 (map name xs)" for xs :: "TransferPlayer list"
    by (simp add: take_map)
  show ?thesis
    by (simp add: a b c sel [OF refl])
qed

section \<open>Consolidation pass\<close>

lemma update_mem: "(k, v) \<in> set (AList.update k v al)"
  by (induction al) auto

lemma map_of_filter_key:
  "P k \<Longrightarrow> map_of (filter (\<lambda>kv. P (fst kv)) ps) k = map_of ps k"
  by (induction ps) auto

lemma merge_record_raises: "r_name pd = None \<Longrightarrow> merge_record now src pd st = Inl KeyError"
  by (simp add: merge_record_def)

lemma merge_record_named:
  assumes "r_name pd = Some nm"
  shows "\<exists>pl. merge_record now src pd st =
            Inr (AList.update (record_id pd) (update_player_from_source pl pd src now) (fst st),
                 insert (record_id pd) (snd st)) \<and>
          src \<in> set (sources pl) \<and>
          (\<forall>p. map_of (fst st) (record_id pd) = Some p \<longrightarrow> set (sources p) \<subseteq> set (sources pl))"
proof (cases "map_of (fst st) (record_id pd)")
  case None
  then show ?thesis
    using assms
    by (intro exI [of _ "new_player (record_id pd) nm src"])
       (simp add: merge_record_def record_id_def Let_def new_player_def)
next
  case (Some p)
  show ?thesis
  proof (cases "src \<in> set (sources p)")
    case True
    with Some assms show ?thesis
      by (intro exI [of _ p]) (simp add: merge_record_def record_id_def Let_def)
  next
    case False
    with Some assms show ?thesis
      by (intro exI [of _ "p\<lparr>sources := sources p @ [src]\<rparr>"])
         (auto simp: merge_record_def record_id_def Let_def)
  qed
qed

lemma merge_record_Inr_named:
  "merge_record now src pd st = Inr st' \<Longrightarrow> \<exists>nm. r_name pd = Some nm"
  by (cases "r_name pd") (simp_all add: merge_record_def)

lemma merge_record_step:
  assumes "merge_record now src pd st = Inr st'"
  shows "record_id pd \<in> snd st'"
    and "merged_from src (fst st') (record_id pd)"
    and "k \<in> snd st \<Longrightarrow> k \<in> snd st'"
    and "merged_from b (fst st) k \<Longrightarrow> merged_from b (fst st') k"
    and "fst ` set (fst st) = K \<union> snd st \<Longrightarrow> fst ` set (fst st') = K \<union> snd st'"
proof -
  obtain nm where "r_name pd = Some nm"
    using assms merge_record_Inr_named by blast
  then obtain pl where
    st': "st' = (AList.update (record_id pd) (update_player_from_source pl pd src now) (fst st),
                 insert (record_id pd) (snd st))"
    and pl: "src \<in> set (sources pl)"
    and old: "\<And>p. map_of (fst st) (record_id pd) = Some p \<Longrightarrow> set (sources p) \<subseteq> set (sources pl)"
    using merge_record_named [of pd nm now src st] assms by auto
  show "record_id pd \<in> snd st'"
    by (simp add: st')
  show "merged_from src (fst st') (record_id pd)"
    using pl by (simp add: st' merged_from_def update_conv' merge_sources)
  show "k \<in> snd st \<Longrightarrow> k \<in> snd st'"
    by (simp add: st')
  show "merged_from b (fst st) k \<Longrightarrow> merged_from b (fst st') k"
    using old by (cases "k = record_id pd")
      (auto simp: st' merged_from_def update_conv' merge_sources split: option.splits)
  show "fst ` set (fst st) = K \<union> snd st \<Longrightarrow> fst ` set (fst st') = K \<union> snd st'"
    by (auto simp: st' dom_update)
qed

text \<open>What a single merge preserves, the loop over a batch, the work on one source and the
  whole pass over the sources preserve.\<close>

lemma merge_records_preserves:
  assumes "\<And>pd st st'. Q st \<Longrightarrow> merge_record now src pd st = Inr st' \<Longrightarrow> Q st'"
    and "Q st"
  shows "Q (fst (merge_records now src d st))"
  using assms(2)
proof (induction d arbitrary: st)
  case Nil
  then show ?case by simp
next
  case (Cons pd d)
  show ?case
  proof (cases "merge_record now src pd st")
    case (Inl e)
    with Cons.prems show ?thesis by simp
  next
    case (Inr st')
    with Cons.prems have "Q st'"
      using assms(1) by blast
    with Inr Cons.IH show ?thesis by simp
  qed
qed

lemma consolidate_source_preserves:
  assumes "\<And>src pd st st'. Q st \<Longrightarrow> merge_record now src pd st = Inr st' \<Longrightarrow> Q st'"
    and "Q st"
  shows "Q (consolidate_source now st sa)"
  using assms merge_records_preserves [of Q now "fst sa" st "data_cache (snd sa)"]
  by (simp add: consolidate_source_def)

lemma pass_preserves:
  assumes "\<And>src pd st st'. Q st \<Longrightarrow> merge_record now src pd st = Inr st' \<Longrightarrow> Q st'"
    and "Q st"
  shows "Q (foldl (consolidate_source now) st ags)"
  using assms(2)
proof (induction ags arbitrary: st)
  case Nil
  then show ?case by simp
next
  case (Cons sa ags)
  then show ?case
    using consolidate_source_preserves [of Q now st sa] assms(1) by simp
qed

lemma merge_records_stops_at_unnamed:
  assumes "r_name bad = None"
  shows "fst (merge_records now src (pre @ bad # post) st) = fst (merge_records now src pre st)"
proof (induction pre arbitrary: st)
  case Nil
  then show ?case
    using assms by (simp add: merge_record_raises)
next
  case (Cons pd pre)
  then show ?case
    by (cases "merge_record now src pd st") simp_all
qed

lemma merge_records_all_named:
  assumes "\<forall>r\<in>set d. r_name r \<noteq> None"
  shows "snd (merge_records now src d st) = None \<and>
         (\<forall>r\<in>set d. record_id r \<in> snd (fst (merge_records now src d st)) \<and>
                     merged_from src (fst (fst (merge_records now src d st))) (record_id r))"
  using assms
proof (induction d arbitrary: st)
  case Nil
  then show ?case by simp
next
  case (Cons pd d)
  then obtain nm where "r_name pd = Some nm"
    by auto
  then obtain st' where step: "merge_record now src pd st = Inr st'"
    using merge_record_named [of pd nm now src st] by blast
  have rest: "merge_records now src (pd # d) st = merge_records now src d st'"
    using step by simp
  have keep_id: "\<And>pd' st st'. record_id pd \<in> snd st \<Longrightarrow>
      merge_record now src pd' st = Inr st' \<Longrightarrow> record_id pd \<in> snd st'"
    using merge_record_step(3) by blast
  have keep_m: "\<And>pd' st st'. merged_from src (fst st) (record_id pd) \<Longrightarrow>
      merge_record now src pd' st = Inr st' \<Longrightarrow> merged_from src (fst st') (record_id pd)"
    using merge_record_step(4) by blast
  have "record_id pd \<in> snd (fst (merge_records now src d st'))"
    using merge_records_preserves [of "\<lambda>st. record_id pd \<in> snd st" now src st' d,
        OF keep_id merge_record_step(1) [OF step]] .
  moreover have "merged_from src (fst (fst (merge_records now src d st'))) (record_id pd)"
    using merge_records_preserves [of "\<lambda>st. merged_from src (fst st) (record_id pd)" now src st' d,
        OF keep_m merge_record_step(2) [OF step]] .
  moreover have "snd (merge_records now src d st') = None \<and>
         (\<forall>r\<in>set d. record_id r \<in> snd (fst (merge_records now src d st')) \<and>
                     merged_from src (fst (fst (merge_records now src d st'))) (record_id r))"
    using Cons.IH [of st'] Cons.prems by simp
  ultimately show ?case
    unfolding rest by simp
qed

lemma live_source_merged:
  assumes "(src, slot) \<in> set ags"
    and "agent_status (metrics slot) = READY \<or> agent_status (metrics slot) = RUNNING"
    and "\<forall>r\<in>set (data_cache slot). r_name r \<noteq> None"
    and "r \<in> set (data_cache slot)"
  shows "record_id r \<in> snd (foldl (consolidate_source now) st ags) \<and>
         merged_from src (fst (foldl (consolidate_source now) st ags)) (record_id r)"
  using assms(1)
proof (induction ags arbitrary: st)
  case Nil
  then show ?case by simp
next
  case (Cons sa ags)
  show ?case
  proof (cases "sa = (src, slot)")
    case True
    have ne: "data_cache slot \<noteq> []"
      using assms(4) by auto
    have cs: "consolidate_source now st sa = fst (merge_records now src (data_cache slot) st)"
      using True assms(2) ne by (auto simp: consolidate_source_def)
    have here: "record_id r \<in> snd (consolidate_source now st sa)"
      "merged_from src (fst (consolidate_source now st sa)) (record_id r)"
      using merge_records_all_named [OF assms(3), of now src st] assms(4) by (simp_all add: cs)
    have keep_id: "\<And>src' pd' st st'. record_id r \<in> snd st \<Longrightarrow>
        merge_record now src' pd' st = Inr st' \<Longrightarrow> record_id r \<in> snd st'"
      using merge_record_step(3) by blast
    have keep_m: "\<And>src' pd' st st'. merged_from src (fst st) (record_id r) \<Longrightarrow>
        merge_record now src' pd' st = Inr st' \<Longrightarrow> merged_from src (fst st') (record_id r)"
      using merge_record_step(4) by blast
    have "record_id r \<in> snd (foldl (consolidate_source now) (consolidate_source now st sa) ags)"
      using pass_preserves [of "\<lambda>st. record_id r \<in> snd st" now
          "consolidate_source now st sa" ags, OF keep_id here(1)] .
    moreover have
      "merged_from src (fst (foldl (consolidate_source now) (consolidate_source now st sa) ags))
         (record_id r)"
      using pass_preserves [of "\<lambda>st. merged_from src (fst st) (record_id r)" now
          "consolidate_source now st sa" ags, OF keep_m here(2)] .
    ultimately show ?thesis by simp
  next
    case False
    then have "(src, slot) \<in> set ags"
      using Cons.prems by auto
    then show ?thesis
      using Cons.IH by simp
  qed
qed

lemma pass_keys:
  "fst ` set (fst (foldl (consolidate_source now) (ps, {}) ags)) =
     fst ` set ps \<union> snd (foldl (consolidate_source now) (ps, {}) ags)"
proof -
  define K where "K = fst ` set ps"
  have step: "fst ` set (fst st') = K \<union> snd st'"
    if "fst ` set (fst st) = K \<union> snd st" and "merge_record now src pd st = Inr st'"
    for src pd st st'
    using merge_record_step(5) [OF that(2) that(1)] .
  have start: "fst ` set (fst (ps, {})) = K \<union> snd (ps, {})"
    by (simp add: K_def)
  show ?thesis
    using pass_preserves [of "\<lambda>st. fst ` set (fst st) = K \<union> snd st" now "(ps, {})" ags,
        OF step start]
    by (simp add: K_def)
qed

text \<open>After a pass the store holds exactly the ids the pass has processed.\<close>

lemma consolidate_data_keys:
  "fst ` set (players (consolidate_data now s)) =
     snd (foldl (consolidate_source now) (players s, {}) (agents s))"
  using pass_keys [of now "players s" "agents s"]
  by (auto simp: consolidate_data_def Let_def)

lemma consolidate_data_lookup:
  assumes "k \<in> snd (foldl (consolidate_source now) (players s, {}) (agents s))"
  shows "map_of (players (consolidate_data now s)) k =
           map_of (fst (foldl (consolidate_source now) (players s, {}) (agents s))) k"
proof -
  let ?st = "foldl (consolidate_source now) (players s, {}) (agents s)"
  have "map_of (filter (\<lambda>kv. (\<lambda>k. k \<notin> fst ` set (players s) - snd ?st) (fst kv)) (fst ?st)) k =
      map_of (fst ?st) k"
    using assms by (intro map_of_filter_key) simp
  then show ?thesis
    by (simp add: consolidate_data_def Let_def)
qed

lemma consolidate_data_frame:
  "agents (consolidate_data now s) = agents s"
  by (simp add: consolidate_data_def Let_def)

lemma consolidate_data_merges_live_source:
  assumes "(src, slot) \<in> set (agents s)"
    and "agent_status (metrics slot) = READY \<or> agent_status (metrics slot) = RUNNING"
    and "\<forall>r\<in>set (data_cache slot). r_name r \<noteq> None"
    and "r \<in> set (data_cache slot)"
  shows "merged_from src (players (consolidate_data now s)) (record_id r)"
proof -
  note m = live_source_merged [OF assms, of now "(players s, {})"]
  show ?thesis
    using m consolidate_data_lookup [of "record_id r" now s]
    by (simp add: merged_from_def)
qed

section \<open>Malformed records\<close>

text \<open>
  C2, as the claim states it, fails: the \<^verbatim>\<open>try\<close> encloses the whole loop over the
  source's batch, so the record without a name ends the loop. Of the batch Amy, a record
  without a name, Bo, only Amy reaches the store.
\<close>

theorem malformed_record_skips_rest_counterexample:
  "malformed_batch = [named ''Amy'', blank_record, named ''Bo''] \<and>
   r_name blank_record = None \<and> r_name (named ''Bo'') = Some ''Bo'' \<and>
   map fst (players (consolidate_data (tick ''t'') (set_slot ON3 (ready_slot malformed_batch) init)))
     = [''amy'']"
  by code_simp

text \<open>
  C2, amended. When a raw record of a source's batch lacks the name, the records before it
  are merged and the record itself and every record after it in that batch are skipped: the
  work on the source leaves the store exactly as merging the records before it alone does.
  Each of those earlier records is in the store afterwards, with the source among its
  contributors, and its id is among the processed ids.
\<close>

theorem malformed_record_ends_batch:
  assumes "r_name bad = None"
    and "\<forall>r\<in>set pre. r_name r \<noteq> None"
    and "agent_status m = READY \<or> agent_status m = RUNNING"
  shows "consolidate_source now st (src, \<lparr>data_cache = pre @ bad # post, metrics = m\<rparr>) =
           fst (merge_records now src pre st) \<and>
         snd (merge_records now src pre st) = None \<and>
         (\<forall>r\<in>set pre.
            record_id r \<in> snd (fst (merge_records now src pre st)) \<and>
            merged_from src (fst (fst (merge_records now src pre st))) (record_id r))"
proof -
  have "consolidate_source now st (src, \<lparr>data_cache = pre @ bad # post, metrics = m\<rparr>) =
      fst (merge_records now src (pre @ bad # post) st)"
    using assms(3) by (auto simp: consolidate_source_def)
  then have "consolidate_source now st (src, \<lparr>data_cache = pre @ bad # post, metrics = m\<rparr>) =
      fst (merge_records now src pre st)"
    by (simp only: merge_records_stops_at_unnamed [OF assms(1)])
  then show ?thesis
    using merge_records_all_named [OF assms(2), of now src st] by blast
qed

theorem malformed_record_ends_batch_witness:
  "r_name blank_record = None \<and> r_name (named ''Amy'') = Some ''Amy'' \<and>
   map fst (fst (consolidate_source (tick ''t'') ([], {})
      (ON3, \<lparr>data_cache = [named ''Amy''] @ blank_record # [named ''Bo''],
              metrics = AgentMetrics_default\<lparr>agent_status := READY\<rparr>\<rparr>))) = [''amy'']"
proof -
  have a: "r_name blank_record = None"
    by (simp add: blank_record_def)
  have b: "\<forall>r\<in>set [named ''Amy'']. r_name r \<noteq> None"
    by (simp add: named_def)
  have c: "agent_status (AgentMetrics_default\<lparr>agent_status := READY\<rparr>) = READY \<or>
           agent_status (AgentMetrics_default\<lparr>agent_status := READY\<rparr>) = RUNNING"
    by simp
  have d: "map fst (fst (fst (merge_records (tick ''t'') ON3 [named ''Amy''] ([], {})))) = [''amy'']"
    by code_simp
  have n: "r_name (named ''Amy'') = Some ''Amy''"
    by (simp add: named_def)
  show ?thesis
    using malformed_record_ends_batch [OF a b c, of "tick ''t''" "([], {})" ON3 "[named ''Bo'']"] a n d
    by simp
qed

section \<open>Refresh of one source\<close>

lemma refresh_agent_unknown_source:
  "map_of (agents s) source = None \<Longrightarrow> refresh_agent source fetched t0 t1 s = Inl KeyError"
  by (simp add: refresh_agent_def)

text \<open>\<^verbatim>\<open>DataSource.ALL\<close> is a wildcard of the queries, not a source with an agent: the
  orchestrator's callers send it to \<^verbatim>\<open>refresh_all_agents\<close>. Passed to \<^verbatim>\<open>refresh_agent\<close>
  it raises at the lookup.\<close>

lemma refresh_agent_wildcard: "refresh_agent ALL_src fetched t0 t1 init = Inl KeyError"
  by (simp add: refresh_agent_def init_def)

lemma set_slot_frame:
  "players (set_slot source slot s) = players s"
  "map_of (agents (set_slot source slot s)) = (map_of (agents s))(source \<mapsto> slot)"
  "(source, slot) \<in> set (agents (set_slot source slot s))"
  by (simp_all add: set_slot_def update_conv' update_mem)

lemma refresh_agent_failure:
  assumes "map_of (agents s) source = Some agent"
  shows "refresh_agent source (Inl e) t0 t1 s =
     Inr (False,
          set_slot source
            (agent\<lparr>metrics := (metrics agent)
               \<lparr>last_refresh_attempt := Some (iso t0),
                error_count := error_count (metrics agent) + 1,
                agent_status := ERROR\<rparr>\<rparr>) s)"
  using assms by (simp add: refresh_agent_def Let_def)

lemma refresh_agent_success:
  assumes "map_of (agents s) source = Some agent"
  shows "\<exists>m. agent_status m = READY \<and>
     refresh_agent source (Inr data) t0 t1 s =
       Inr (True, consolidate_data t1 (set_slot source \<lparr>data_cache = data, metrics = m\<rparr> s))"
  using assms
  by (simp add: refresh_agent_def Let_def) (rule exI, rule conjI [rotated], rule refl, simp)

text \<open>
  C8. For every source the orchestrator has an agent for, \<^verbatim>\<open>refresh_agent\<close> returns and
  does not raise: \<open>False\<close> when the fetch raised, with the source's status set to ERROR and
  its error count one higher, and \<open>True\<close> when the fetch returned.
\<close>

theorem refresh_agent_never_raises:
  assumes "map_of (agents s) source = Some agent"
  shows "(\<exists>s' agent'.
            refresh_agent source (Inl e) t0 t1 s = Inr (False, s') \<and>
            map_of (agents s') source = Some agent' \<and>
            agent_status (metrics agent') = ERROR \<and>
            error_count (metrics agent') = error_count (metrics agent) + 1) \<and>
         (\<exists>s'. refresh_agent source (Inr data) t0 t1 s = Inr (True, s'))"
proof
  show "\<exists>s' agent'.
            refresh_agent source (Inl e) t0 t1 s = Inr (False, s') \<and>
            map_of (agents s') source = Some agent' \<and>
            agent_status (metrics agent') = ERROR \<and>
            error_count (metrics agent') = error_count (metrics agent) + 1"
    by (simp add: refresh_agent_failure [OF assms] set_slot_frame)
  show "\<exists>s'. refresh_agent source (Inr data) t0 t1 s = Inr (True, s')"
    using refresh_agent_success [OF assms, of data t0 t1] by blast
qed

theorem refresh_agent_never_raises_witness:
  "map_of (agents init) RIVALS = Some \<lparr>data_cache = [], metrics = AgentMetrics_default\<rparr> \<and>
   (\<exists>s' agent'.
      refresh_agent RIVALS (Inl FetchError) (tick ''10:00'') (tick ''10:01'') init = Inr (False, s') \<and>
      map_of (agents s') RIVALS = Some agent' \<and>
      agent_status (metrics agent') = ERROR \<and> error_count (metrics agent') = 1) \<and>
   (\<exists>s'. refresh_agent RIVALS (Inr [named ''Bob'']) (tick ''10:00'') (tick ''10:01'') init
           = Inr (True, s'))"
proof -
  have a: "map_of (agents init) RIVALS = Some \<lparr>data_cache = [], metrics = AgentMetrics_default\<rparr>"
    by (simp add: init_def)
  have z: "error_count (metrics \<lparr>data_cache = [], metrics = AgentMetrics_default\<rparr>) + 1 = 1"
    by (simp add: AgentMetrics_default_def)
  show ?thesis
    using refresh_agent_never_raises [OF a, of FetchError "tick ''10:00''" "tick ''10:01''" "[named ''Bob'']"] a
    unfolding z by blast
qed

section \<open>Failure of one source\<close>

lemma everything_passes: "passes_filters everything p"
  by (simp add: passes_filters_def everything_def PortalQuery_default_def present_def truthy_def)

lemma everything_returns_store: "set (query_players everything s) = snd ` set (players s)"
proof (cases "players s = []")
  case True
  then show ?thesis by (simp add: query_players_def)
next
  case False
  have "limit everything = None"
    by (simp add: everything_def)
  then have "query_players everything s = select_players everything s"
    using False by (simp add: query_players_def)
  then show ?thesis
    by (simp add: select_players_passes everything_passes)
qed

text \<open>
  C3, as the claim states it, fails in its second half. A failed refresh marks the source
  ERROR; the next consolidation pass skips such a source and removes every player it has
  not processed. Bob, whom only Rivals reported, is in the store after the failed refresh of
  Rivals and gone after the next successful refresh of ON3.
\<close>

theorem failed_source_loses_players_counterexample:
  "map fst (players bob_state) = [''bob''] \<and>
   returned (refresh_agent RIVALS (Inl FetchError) (tick ''10:00'') (tick ''10:01'') bob_state)
     = Some False \<and>
   map fst (players bob_stale_state) = [''bob''] \<and>
   returned (refresh_agent ON3 (Inr [named ''Amy'']) (tick ''10:02'') (tick ''10:03'') bob_stale_state)
     = Some True \<and>
   map fst (players amy_state) = [''amy'']"
  by code_simp

text \<open>
  C3, amended. When the fetch of one source fails and the fetch of another succeeds, the
  failed refresh itself leaves the store as it was, the records of the other source (each
  with a name) are merged, and a query without filter and limit returns their players. The
  players that only the failed source had reported are not kept beyond that: the next pass
  removes what it has not processed.
\<close>

theorem failed_refresh_leaves_others_merged:
  assumes "map_of (agents s) a = Some sa"
    and "map_of (agents s) b = Some sb"
    and "\<forall>r\<in>set d. r_name r \<noteq> None"
  shows "\<exists>s1 s2.
           refresh_agent a (Inl e) t0 t1 s = Inr (False, s1) \<and> players s1 = players s \<and>
           refresh_agent b (Inr d) t2 t3 s1 = Inr (True, s2) \<and>
           (\<forall>r\<in>set d.
              merged_from b (players s2) (record_id r) \<and>
              (\<exists>p\<in>set (query_players everything s2). map_of (players s2) (record_id r) = Some p))"
proof -
  define s1 where "s1 = set_slot a
            (sa\<lparr>metrics := (metrics sa)
               \<lparr>last_refresh_attempt := Some (iso t0),
                error_count := error_count (metrics sa) + 1,
                agent_status := ERROR\<rparr>\<rparr>) s"
  have r1: "refresh_agent a (Inl e) t0 t1 s = Inr (False, s1)"
    unfolding s1_def by (rule refresh_agent_failure [OF assms(1)])
  have p1: "players s1 = players s"
    by (simp add: s1_def set_slot_frame)
  obtain sb' where b1: "map_of (agents s1) b = Some sb'"
    using assms(2) by (cases "a = b") (simp_all add: s1_def set_slot_frame)
  obtain m where m: "agent_status m = READY"
    and r2: "refresh_agent b (Inr d) t2 t3 s1 =
       Inr (True, consolidate_data t3 (set_slot b \<lparr>data_cache = d, metrics = m\<rparr> s1))"
    using refresh_agent_success [OF b1, of d t2 t3] by blast
  define s2 where "s2 = consolidate_data t3 (set_slot b \<lparr>data_cache = d, metrics = m\<rparr> s1)"
  have merged: "merged_from b (players s2) (record_id r)" if "r \<in> set d" for r
    unfolding s2_def
    by (rule consolidate_data_merges_live_source
          [of b "\<lparr>data_cache = d, metrics = m\<rparr>" "set_slot b \<lparr>data_cache = d, metrics = m\<rparr> s1"])
       (use m assms(3) that in \<open>simp_all add: set_slot_frame\<close>)
  have "\<exists>p\<in>set (query_players everything s2). map_of (players s2) (record_id r) = Some p"
    if rd: "r \<in> set d" for r
  proof -
    obtain p where p: "map_of (players s2) (record_id r) = Some p"
      using merged [OF rd] by (auto simp: merged_from_def split: option.splits)
    then have "p \<in> snd ` set (players s2)"
      by (metis map_of_SomeD snd_conv image_eqI)
    then show ?thesis
      using p by (simp add: everything_returns_store)
  qed
  with merged r1 p1 r2 show ?thesis
    unfolding s2_def by blast
qed

theorem failed_refresh_leaves_others_merged_witness:
  "map_of (agents init) RIVALS = Some \<lparr>data_cache = [], metrics = AgentMetrics_default\<rparr> \<and>
   map_of (agents init) ON3 = Some \<lparr>data_cache = [], metrics = AgentMetrics_default\<rparr> \<and>
   r_name (named ''Amy'') = Some ''Amy'' \<and>
   (\<exists>s1 s2.
      refresh_agent RIVALS (Inl FetchError) (tick ''10:00'') (tick ''10:01'') init = Inr (False, s1) \<and>
      refresh_agent ON3 (Inr [named ''Amy'']) (tick ''10:02'') (tick ''10:03'') s1 = Inr (True, s2) \<and>
      merged_from ON3 (players s2) ''amy'')"
proof -
  have a: "map_of (agents init) RIVALS = Some \<lparr>data_cache = [], metrics = AgentMetrics_default\<rparr>"
    by (simp add: init_def)
  have b: "map_of (agents init) ON3 = Some \<lparr>data_cache = [], metrics = AgentMetrics_default\<rparr>"
    by (simp add: init_def)
  have n: "r_name (named ''Amy'') = Some ''Amy''"
    by (simp add: named_def)
  then have c: "\<forall>r\<in>set [named ''Amy'']. r_name r \<noteq> None"
    by simp
  have i: "record_id (named ''Amy'') = ''amy''"
    by code_simp
  show ?thesis
    using failed_refresh_leaves_others_merged
      [OF a b c, of FetchError "tick ''10:00''" "tick ''10:01''" "tick ''10:02''" "tick ''10:03''"]
      a b n
    by (simp add: i) blast
qed

section \<open>News post-processing: the signals of one player\<close>

lemma adjust_item_agree:
  assumes "3 \<le> n" and "truthy mp" and "truthy md"
    and "n_previous_school item = mp" and "n_destination_school item = md"
  shows "adjust_item n mp md item =
           item\<lparr>verified := True, confidence_score := min 1 (confidence_score item + 1 / 10)\<rparr>"
  using assms by (simp add: adjust_item_def Let_def)

lemma adjust_item_disagree:
  assumes "(truthy mp \<and> truthy (n_previous_school item) \<and> n_previous_school item \<noteq> mp) \<or>
           (truthy md \<and> truthy (n_destination_school item) \<and> n_destination_school item \<noteq> md)"
  shows "adjust_item n mp md item =
           item\<lparr>confidence_score := max (3 / 10) (confidence_score item - 2 / 10)\<rparr>"
proof -
  have no_boost: "\<not> ((if truthy mp then n_previous_school item = mp else False) \<and>
                     (if truthy md then n_destination_school item = md else False) \<and> 3 \<le> n)"
    using assms by (cases "truthy mp"; cases "truthy md") auto
  have "adjust_item n mp md item =
      (if (truthy mp \<and> truthy (n_previous_school item) \<and> n_previous_school item \<noteq> mp) \<or>
          (truthy md \<and> truthy (n_destination_school item) \<and> n_destination_school item \<noteq> md)
       then item\<lparr>confidence_score := max (3 / 10) (confidence_score item - 2 / 10)\<rparr>
       else item)"
    unfolding adjust_item_def Let_def by (simp only: no_boost if_False)
  then show ?thesis
    by (simp only: if_P [OF assms])
qed

lemma map_fst_rewritten: "map fst (map (\<lambda>e. (fst e, f e)) xs) = map fst xs"
  by (induction xs) simp_all

lemma mset_newest_first: "mset (newest_first items) = mset items"
  by (simp add: newest_first_def)

lemma set_newest_first: "set (newest_first items) = set items"
  by (simp add: newest_first_def)

lemma length_newest_first: "length (newest_first items) = length items"
  by (simp add: newest_first_def)

lemma verify_player_single: "length items \<le> 1 \<Longrightarrow> verify_player items = items"
  by (simp add: verify_player_def)

lemma verify_player_many:
  "1 < length items \<Longrightarrow>
     verify_player items =
       map (\<lambda>e. (fst e, adjust_item (length items) (majority_prev items) (majority_dest items) (snd e)))
         (newest_first items)"
  by (simp add: verify_player_def Let_def majority_prev_def majority_dest_def length_newest_first)

lemma verify_player_keys:
  "image_mset fst (mset (verify_player items)) = image_mset fst (mset items)"
proof (cases "1 < length items")
  case True
  have "map fst (verify_player items) = map fst (newest_first items)"
    by (simp only: verify_player_many [OF True] map_fst_rewritten)
  then have "mset (map fst (verify_player items)) = mset (map fst (newest_first items))"
    by simp
  then show ?thesis
    by (simp add: mset_newest_first)
next
  case False
  then show ?thesis
    by (simp add: verify_player_single)
qed

lemma verify_player_entry:
  assumes "(k, item) \<in> set items"
  shows "(k, if 1 < length items
             then adjust_item (length items) (majority_prev items) (majority_dest items) item
             else item) \<in> set (verify_player items)"
proof (cases "1 < length items")
  case True
  have "(k, item) \<in> set (newest_first items)"
    using assms by (simp add: set_newest_first)
  then have "(\<lambda>e. (fst e, adjust_item (length items) (majority_prev items) (majority_dest items) (snd e)))
      (k, item) \<in> set (verify_player items)"
    unfolding verify_player_many [OF True] set_map by (rule imageI)
  then show ?thesis
    using True by simp
next
  case False
  then show ?thesis
    using assms by (simp add: verify_player_single)
qed

section \<open>News post-processing: grouping by player\<close>

lemma add_event_lookup:
  "map_of (add_event ev e) who =
     (if who = player_name (snd e)
      then Some ((case map_of ev who of None \<Rightarrow> [] | Some its \<Rightarrow> its) @ [e])
      else map_of ev who)"
  by (simp add: add_event_def update_conv' split: option.splits)

lemma player_events_lookup:
  "map_of (foldl add_event ev es) who =
     (if signals_of es who = [] then map_of ev who
      else Some ((case map_of ev who of None \<Rightarrow> [] | Some its \<Rightarrow> its) @ signals_of es who))"
proof (induction es arbitrary: ev)
  case Nil
  then show ?case by (simp add: signals_of_def)
next
  case (Cons e es)
  have step: "foldl add_event ev (e # es) = foldl add_event (add_event ev e) es"
    by simp
  have sig: "signals_of (e # es) who =
      (if who = player_name (snd e) then e # signals_of es who else signals_of es who)"
    by (auto simp: signals_of_def)
  show ?case
    unfolding step Cons.IH [of "add_event ev e"] sig add_event_lookup
    by (cases "who = player_name (snd e)"; cases "signals_of es who = []") simp_all
qed

lemma add_event_distinct: "distinct (map fst ev) \<Longrightarrow> distinct (map fst (add_event ev e))"
  by (simp add: add_event_def distinct_update split: option.splits)

lemma player_events_distinct:
  "distinct (map fst ev) \<Longrightarrow> distinct (map fst (foldl add_event ev es))"
  by (induction es arbitrary: ev) (simp_all add: add_event_distinct)

lemma update_grown_entry:
  "map_of ev k = Some its \<Longrightarrow>
     mset (concat (map snd (AList.update k (its @ [e]) ev))) = mset (concat (map snd ev)) + {#e#}"
  by (induction ev) (auto split: if_splits)

lemma update_new_entry:
  "map_of ev k = None \<Longrightarrow>
     mset (concat (map snd (AList.update k [e] ev))) = mset (concat (map snd ev)) + {#e#}"
  by (induction ev) (auto split: if_splits)

lemma add_event_entries:
  "mset (concat (map snd (add_event ev e))) = mset (concat (map snd ev)) + {#e#}"
  by (cases "map_of ev (player_name (snd e))")
     (simp_all add: add_event_def update_grown_entry update_new_entry)

lemma player_events_entries:
  "mset (concat (map snd (foldl add_event ev es))) = mset (concat (map snd ev)) + mset es"
  by (induction es arbitrary: ev) (simp_all add: add_event_entries)

lemma written_keys:
  "image_mset fst (mset (concat (map (\<lambda>pe. verify_player (snd pe)) ev))) =
     image_mset fst (mset (concat (map snd ev)))"
  by (induction ev) (simp_all add: verify_player_keys)

lemma map_of_rewritten:
  assumes "distinct (map fst es)" and "(k, v) \<in> set es"
  shows "map_of (map (\<lambda>e. (fst e, f e)) es) k = Some (f (k, v))"
proof -
  have "distinct (map fst (map (\<lambda>e. (fst e, f e)) es))"
    using assms(1) by (simp add: comp_def)
  moreover have "(k, f (k, v)) \<in> set (map (\<lambda>e. (fst e, f e)) es)"
    using assms(2) by force
  ultimately show ?thesis
    by (rule map_of_is_SomeI)
qed

lemma post_process_lookup:
  assumes "distinct (map fst news_items)" and "(k, item) \<in> set news_items"
  shows "map_of (post_process_news_items news_items) k =
     Some (if 1 < length (signals_of news_items (player_name item))
           then adjust_item (length (signals_of news_items (player_name item)))
                  (majority_prev (signals_of news_items (player_name item)))
                  (majority_dest (signals_of news_items (player_name item))) item
           else item)"
proof -
  let ?g = "signals_of news_items (player_name item)"
  let ?ev = "foldl add_event [] news_items"
  let ?written = "concat (map (\<lambda>pe. verify_player (snd pe)) ?ev)"
  let ?item' = "if 1 < length ?g
                then adjust_item (length ?g) (majority_prev ?g) (majority_dest ?g) item else item"
  have in_g: "(k, item) \<in> set ?g"
    using assms(2) by (simp add: signals_of_def)
  then have "?g \<noteq> []"
    by auto
  then have "map_of ?ev (player_name item) = Some ?g"
    by (simp add: player_events_lookup)
  then have group: "(player_name item, ?g) \<in> set ?ev"
    by (rule map_of_SomeD)
  have "(k, ?item') \<in> set (verify_player ?g)"
    using verify_player_entry [OF in_g] .
  then have mem: "(k, ?item') \<in> set ?written"
    using group by (auto simp: set_concat intro!: bexI [of _ "(player_name item, ?g)"])
  have "image_mset fst (mset ?written) = image_mset fst (mset news_items)"
    by (simp only: written_keys player_events_entries) simp
  then have "mset (map fst ?written) = mset (map fst news_items)"
    by simp
  then have "distinct (map fst ?written)"
    using assms(1) by (metis mset_eq_imp_distinct_iff)
  then have w: "map_of ?written k = Some ?item'"
    using mem by (rule map_of_is_SomeI)
  have "map_of (post_process_news_items news_items) k =
      Some (case map_of ?written (fst (k, item)) of None \<Rightarrow> snd (k, item) | Some it \<Rightarrow> it)"
    unfolding post_process_news_items_def Let_def
    by (rule map_of_rewritten [OF assms])
  then show ?thesis
    by (simp add: w)
qed

section \<open>Consensus among the signals of a player\<close>

text \<open>
  C7, as the claim states it, fails where it says that with fewer than three signals
  neither adjustment is applied: only the boost asks for three signals, the penalty is
  applied as soon as the player has two. Of two signals that name Duke and Kentucky, the
  older one loses 0.2.
\<close>

theorem penalty_with_two_signals_counterexample:
  "length (signals_of two_signals ''John Smith'') = 2 \<and>
   map (\<lambda>e. confidence_score (snd e)) two_signals = [8 / 10, 8 / 10] \<and>
   map (\<lambda>e. confidence_score (snd e)) (post_process_news_items two_signals) = [8 / 10, 6 / 10]"
  by code_simp

text \<open>
  The boost needs a majority previous school as well: three signals that give no previous
  school and name Duke, Kentucky, Duke are not boosted and not marked verified; the one
  naming Kentucky is still penalised.
\<close>

lemma no_boost_without_previous_school:
  "map (\<lambda>e. (confidence_score (snd e), verified (snd e)))
     (post_process_news_items three_signals_no_origin) =
   [(8 / 10, False), (6 / 10, False), (8 / 10, False)]"
  by code_simp

text \<open>
  C7, amended. Let a player have \<open>n\<close> signals, and let the majority previous and
  destination school be the values most often given among them. With \<open>n \<ge> 3\<close>, a signal
  that carries the majority value in both fields has its confidence raised by 0.1, capped at
  1.0, and is marked verified. With \<open>n \<ge> 2\<close>, a signal that carries, in either field, a
  value other than the majority one has its confidence lowered by 0.2, floored at 0.3. With
  a single signal nothing is changed. For three signals that share the previous school and
  name Duke twice and Kentucky once, the two that name Duke gain 0.1 and are verified, the
  third loses 0.2.
\<close>

theorem consensus_adjustment:
  assumes "distinct (map fst news_items)" and "(k, item) \<in> set news_items"
    and "sigs = signals_of news_items (player_name item)"
    and "mp = majority_prev sigs" and "md = majority_dest sigs"
  shows "\<exists>item'.
     map_of (post_process_news_items news_items) k = Some item' \<and>
     (3 \<le> length sigs \<and> truthy mp \<and> truthy md \<and>
      n_previous_school item = mp \<and> n_destination_school item = md \<longrightarrow>
        item' = item\<lparr>verified := True,
                       confidence_score := min 1 (confidence_score item + 1 / 10)\<rparr>) \<and>
     (2 \<le> length sigs \<and>
      ((truthy mp \<and> truthy (n_previous_school item) \<and> n_previous_school item \<noteq> mp) \<or>
       (truthy md \<and> truthy (n_destination_school item) \<and> n_destination_school item \<noteq> md)) \<longrightarrow>
        item' = item\<lparr>confidence_score := max (3 / 10) (confidence_score item - 2 / 10)\<rparr>) \<and>
     (length sigs = 1 \<longrightarrow> item' = item)"
proof -
  let ?item' = "if 1 < length sigs then adjust_item (length sigs) mp md item else item"
  have look: "map_of (post_process_news_items news_items) k = Some ?item'"
    unfolding assms(3-5) by (rule post_process_lookup [OF assms(1,2)])
  have agree: "?item' = item\<lparr>verified := True,
                       confidence_score := min 1 (confidence_score item + 1 / 10)\<rparr>"
    if "3 \<le> length sigs \<and> truthy mp \<and> truthy md \<and>
        n_previous_school item = mp \<and> n_destination_school item = md"
    using that adjust_item_agree [of "length sigs" mp md item] by simp
  have disagree: "?item' = item\<lparr>confidence_score := max (3 / 10) (confidence_score item - 2 / 10)\<rparr>"
    if "2 \<le> length sigs \<and>
      ((truthy mp \<and> truthy (n_previous_school item) \<and> n_previous_school item \<noteq> mp) \<or>
       (truthy md \<and> truthy (n_destination_school item) \<and> n_destination_school item \<noteq> md))"
  proof -
    have "1 < length sigs"
      using that by simp
    moreover have "adjust_item (length sigs) mp md item =
        item\<lparr>confidence_score := max (3 / 10) (confidence_score item - 2 / 10)\<rparr>"
      using that by (intro adjust_item_disagree) blast
    ultimately show ?thesis
      by simp
  qed
  have single: "?item' = item" if "length sigs = 1"
    using that by simp
  show ?thesis
    using look agree disagree single by blast
qed

theorem consensus_adjustment_witness:
  "distinct (map fst three_signals) \<and>
   length (signals_of three_signals ''John Smith'') = 3 \<and>
   majority_prev (signals_of three_signals ''John Smith'') = Some ''UNC'' \<and>
   majority_dest (signals_of three_signals ''John Smith'') = Some ''Duke'' \<and>
   map_of (post_process_news_items three_signals) ''n1'' =
     Some ((signal ''2024-04-03'' (Some ''UNC'') (Some ''Duke''))
             \<lparr>verified := True, confidence_score := 9 / 10\<rparr>) \<and>
   map_of (post_process_news_items three_signals) ''n2'' =
     Some ((signal ''2024-04-02'' (Some ''UNC'') (Some ''Kentucky''))
             \<lparr>confidence_score := 6 / 10\<rparr>)"
proof -
  let ?s1 = "signal ''2024-04-03'' (Some ''UNC'') (Some ''Duke'')"
  let ?s2 = "signal ''2024-04-02'' (Some ''UNC'') (Some ''Kentucky'')"
  have d: "distinct (map fst three_signals)"
    by (simp add: three_signals_def)
  have m1: "(''n1'', ?s1) \<in> set three_signals" and m2: "(''n2'', ?s2) \<in> set three_signals"
    by (simp_all add: three_signals_def)
  have who: "player_name ?s1 = ''John Smith''" "player_name ?s2 = ''John Smith''"
    by (simp_all add: signal_def)
  have g: "signals_of three_signals ''John Smith'' = three_signals"
    by (simp add: signals_of_def three_signals_def signal_def)
  have n: "length three_signals = 3"
    by (simp add: three_signals_def)
  have mp: "majority_prev three_signals = Some ''UNC''"
    by code_simp
  have md: "majority_dest three_signals = Some ''Duke''"
    by code_simp
  have f1: "n_previous_school ?s1 = Some ''UNC''" "n_destination_school ?s1 = Some ''Duke''"
    "confidence_score ?s1 = 8 / 10"
    by (simp_all add: signal_def)
  have f2: "n_previous_school ?s2 = Some ''UNC''" "n_destination_school ?s2 = Some ''Kentucky''"
    "confidence_score ?s2 = 8 / 10"
    by (simp_all add: signal_def)
  have t: "truthy (Some ''UNC'')" "truthy (Some ''Duke'')" "truthy (Some ''Kentucky'')"
    by (simp_all add: truthy_def)
  have r1: "map_of (post_process_news_items three_signals) ''n1'' =
      Some (?s1\<lparr>verified := True, confidence_score := 9 / 10\<rparr>)"
    using consensus_adjustment [OF d m1 refl refl refl]
    unfolding who g mp md n f1 using t by auto
  have r2: "map_of (post_process_news_items three_signals) ''n2'' =
      Some (?s2\<lparr>confidence_score := 6 / 10\<rparr>)"
    using consensus_adjustment [OF d m2 refl refl refl]
    unfolding who g mp md n f2 using t by auto
  show ?thesis
    using d n mp md r1 r2 by (simp add: g)
qed

end
